theory Spec2Isabelle
  imports Main "HOL-Library.Sublist" "HOL-Library.Multiset"
begin

section \<open>JavaScript values, strings and exceptions\<close>

text \<open>
  The handlers of \<^verbatim>\<open>api/get-score.js\<close> and \<^verbatim>\<open>api/refresh-stats.js\<close> build plain
  JSON objects. An object is an association list in insertion order, as a JavaScript
  object with string keys is. Numbers are the integers the adapters produce (counts and
  ratings), with \<open>JNaN\<close> for the \<^verbatim>\<open>NaN\<close> that \<^verbatim>\<open>parseInt\<close> returns on a text
  without digits. A JavaScript number is a double: an integer up to \<open>2^53\<close> in absolute
  value is exact, and \<open>JNum\<close> holds such an integer; \<open>JApprox n\<close> is the double that
  \<^verbatim>\<open>parseInt\<close> answers for a longer run of digits with the value \<open>n\<close>, a double near \<open>n\<close>
  that the model does not compute. A \<open>string\<close> stands for a JavaScript string whose code
  units are below 256.
\<close>

datatype jsval =
    JNum int | JApprox int | JNaN | JStr string | JBool bool
  | JArr "jsval list" | JObj "(string \<times> jsval) list"

type_synonym obj = "(string \<times> jsval) list"

datatype exn = ThrownError string | TypeError string | SyntaxError string | AxiosError string

fun message :: "exn \<Rightarrow> string" where
  "message (ThrownError m) = m"
| "message (TypeError m) = m"
| "message (SyntaxError m) = m"
| "message (AxiosError m) = m"

text \<open>\<^verbatim>\<open>!s\<close> for a value that is \<^verbatim>\<open>undefined\<close> (\<open>None\<close>) or a string.\<close>

fun truthy :: "string option \<Rightarrow> bool" where
  "truthy None = False"
| "truthy (Some s) = (s \<noteq> [])"

text \<open>\<^verbatim>\<open>s || d\<close> on strings: the empty string is falsy.\<close>

definition or_else :: "string \<Rightarrow> string \<Rightarrow> string" where
  "or_else s d = (if s = [] then d else s)"

text \<open>
  A value of \<^verbatim>\<open>request.query\<close>: a string, or an array of strings when the parameter
  is given several times. \<open>present\<close> is its truthiness (\<open>None\<close> is \<^verbatim>\<open>undefined\<close>; an array
  is truthy), \<open>to_string\<close> is what a template literal makes of it (an array is joined
  with commas), \<open>to_json\<close> is the value as it stands in a JSON object.
\<close>

datatype qvalue = Str string | Arr "string list"

fun present :: "qvalue option \<Rightarrow> bool" where
  "present None = False"
| "present (Some (Str s)) = (s \<noteq> [])"
| "present (Some (Arr xs)) = True"

fun join_comma :: "string list \<Rightarrow> string" where
  "join_comma [] = []"
| "join_comma [x] = x"
| "join_comma (x # y # ys) = x @ '','' @ join_comma (y # ys)"

fun to_string :: "qvalue \<Rightarrow> string" where
  "to_string (Str s) = s"
| "to_string (Arr xs) = join_comma xs"

fun to_json :: "qvalue \<Rightarrow> jsval" where
  "to_json (Str s) = JStr s"
| "to_json (Arr xs) = JArr (map JStr xs)"

definition is_ws :: "char \<Rightarrow> bool" where
  "is_ws c = (of_char c \<in> {9, 10, 11, 12, 13, 32, 160 :: nat})"

definition trim :: "string \<Rightarrow> string" where
  "trim s = rev (dropWhile is_ws (rev (dropWhile is_ws s)))"

definition lower_char :: "char \<Rightarrow> char" where
  "lower_char c =
     (let n = (of_char c :: nat)
      in if (65 \<le> n \<and> n \<le> 90) \<or> (192 \<le> n \<and> n \<le> 222 \<and> n \<noteq> 215)
         then char_of (n + 32) else c)"

definition toLowerCase :: "string \<Rightarrow> string" where
  "toLowerCase s = map lower_char s"

definition startsWith :: "string \<Rightarrow> string \<Rightarrow> bool" where
  "startsWith s p = prefix p s"

text \<open>
  \<^verbatim>\<open>s.split(sep)\<close> for a non-empty separator: the pieces between the successive,
  non-overlapping occurrences of \<open>sep\<close>, found from left to right. \<open>acc\<close> holds the
  current piece, reversed.
\<close>

function split_from :: "string \<Rightarrow> string \<Rightarrow> string \<Rightarrow> string list" where
  "split_from sep acc s =
     (if s = [] then [rev acc]
      else if sep \<noteq> [] \<and> prefix sep s then rev acc # split_from sep [] (drop (length sep) s)
      else split_from sep (hd s # acc) (tl s))"
  by pat_completeness auto
termination
  by (relation "measure (\<lambda>(sep, acc, s). length s)") auto

declare split_from.simps [simp del]

definition split :: "string \<Rightarrow> string \<Rightarrow> string list" where
  "split s sep = split_from sep [] s"

text \<open>\<^verbatim>\<open>xs[i]\<close>: \<^verbatim>\<open>undefined\<close> out of range.\<close>

definition at_index :: "'a list \<Rightarrow> nat \<Rightarrow> 'a option" where
  "at_index xs i = (if i < length xs then Some (xs ! i) else None)"

definition is_digit :: "char \<Rightarrow> bool" where
  "is_digit c = (48 \<le> (of_char c :: nat) \<and> (of_char c :: nat) \<le> 57)"

text \<open>\<^verbatim>\<open>s.match(/\d+/)\<close>: the leftmost, longest run of decimal digits, or \<^verbatim>\<open>null\<close>.\<close>

definition match_digits :: "string \<Rightarrow> string option" where
  "match_digits s =
     (case takeWhile is_digit (dropWhile (\<lambda>c. \<not> is_digit c) s) of
        [] \<Rightarrow> None
      | d # ds \<Rightarrow> Some (d # ds))"

text \<open>The value of a character as a digit; 36 for a character that is no digit in any radix.\<close>

definition digit_val :: "char \<Rightarrow> nat" where
  "digit_val c =
     (let n = (of_char c :: nat)
      in if 48 \<le> n \<and> n \<le> 57 then n - 48
         else if 97 \<le> n \<and> n \<le> 122 then n - 87
         else if 65 \<le> n \<and> n \<le> 90 then n - 55
         else 36)"

text \<open>The number for an integer that was read: exact up to \<open>2^53\<close>.\<close>

definition number_of :: "int \<Rightarrow> jsval" where
  "number_of n = (if n \<le> 9007199254740992 then JNum n else JApprox n)"

definition parse_digits :: "nat \<Rightarrow> string \<Rightarrow> jsval" where
  "parse_digits radix s =
     (case takeWhile (\<lambda>c. digit_val c < radix) s of
        [] \<Rightarrow> JNaN
      | d # ds \<Rightarrow> number_of (foldl (\<lambda>a c. a * int radix + int (digit_val c)) 0 (d # ds)))"

fun negate :: "jsval \<Rightarrow> jsval" where
  "negate (JNum n) = JNum (- n)"
| "negate (JApprox n) = JApprox (- n)"
| "negate v = v"

text \<open>
  \<^verbatim>\<open>parseInt(s, radix)\<close> (the adapters pass 10: \<open>Some 10\<close>) and \<^verbatim>\<open>parseInt(s)\<close>
  (\<open>None\<close>): leading white space is skipped, one sign is read, and the call without a
  radix, or with radix 16, reads a \<^verbatim>\<open>0x\<close> prefix as hexadecimal.
\<close>

definition parseInt :: "string \<Rightarrow> nat option \<Rightarrow> jsval" where
  "parseInt str radix =
     (let s = dropWhile is_ws str;
          neg = (s \<noteq> [] \<and> hd s = CHR ''-'');
          s1 = (if s \<noteq> [] \<and> (hd s = CHR ''-'' \<or> hd s = CHR ''+'') then tl s else s);
          hex = ((radix = None \<or> radix = Some 16) \<and> (prefix ''0x'' s1 \<or> prefix ''0X'' s1));
          n = (if hex then parse_digits 16 (drop 2 s1)
               else parse_digits (case radix of None \<Rightarrow> 10 | Some r \<Rightarrow> r) s1)
      in if neg then negate n else n)"

text \<open>\<^verbatim>\<open>v || 0\<close> on a number: \<^verbatim>\<open>NaN\<close> and 0 are falsy.\<close>

fun or_zero :: "jsval \<Rightarrow> jsval" where
  "or_zero JNaN = JNum 0"
| "or_zero (JNum n) = (if n = 0 then JNum 0 else JNum n)"
| "or_zero v = v"

section \<open>The outside world\<close>

text \<open>
  The network, the identity service and the profile store are inputs of the model: a
  function that says what each of them answers, and an exception when the call throws.
  Every call is answered; a request that never comes back is not modelled. A page is
  asked for by the user name in its URL; the GraphQL request carries the user name as a
  variable, a string or (from a repeated query parameter) an array.

  What the upstream sources answer. The GraphQL answer of LeetCode is read at two
  places: \<^verbatim>\<open>data.errors\<close> (\<open>None\<close> when falsy, else the messages of its entries) and
  \<^verbatim>\<open>data.data.matchedUser.submitStats.acSubmissionNum\<close> (\<open>None\<close> when a step of that
  path is \<^verbatim>\<open>null\<close> or \<^verbatim>\<open>undefined\<close>, so that reading it throws a TypeError).
\<close>

record submission =
  difficulty :: string
  count :: int

record graphql_response =
  errors :: "string list option"
  acSubmissionNum :: "submission list option"

text \<open>
  A scraped page is given by what the cheerio selectors of the adapters return on it: the
  \<^verbatim>\<open>.text()\<close> of each selection (empty when nothing matches) and the number of
  selected elements.
\<close>

record codechef_page =
  rating_number :: string
  span_rating :: string
  h3_total_problems_solved :: string
  contest_participated_count_b :: string

record hackerrank_page =
  hacker_badge :: nat

text \<open>
  On the GeeksforGeeks page the adapter reads \<^verbatim>\<open>let user_profile_data = ...;\<close> in a
  script tag and gives the text to \<^verbatim>\<open>JSON.parse\<close>: \<open>NoProfileData\<close> when the script or the
  match is missing or empty, \<open>InvalidJson\<close> when \<^verbatim>\<open>JSON.parse\<close> throws, \<open>ProfileData None\<close>
  when the parsed value has no \<^verbatim>\<open>submission_counts\<close> object (reading a count throws a
  TypeError), and else the three counts, each \<open>None\<close> when absent.
\<close>

record submission_counts =
  easy :: "int option"
  medium :: "int option"
  hard :: "int option"

datatype profile_script = NoProfileData | InvalidJson | ProfileData "submission_counts option"

record gfg_page =
  score_card_value :: string
  user_profile_data :: profile_script

datatype event =
    HttpPost string qvalue
  | HttpGet string
  | ConsoleError string
  | VerifyIdToken_call "string option"
  | DocGet string
  | DocUpdate string obj

record upstream =
  axios_post_leetcode :: "qvalue \<Rightarrow> exn + graphql_response"
  axios_get_codechef :: "string \<Rightarrow> exn + codechef_page"
  axios_get_hackerrank :: "string \<Rightarrow> exn + hackerrank_page"
  axios_get_gfg :: "string \<Rightarrow> exn + gfg_page"

record response =
  status :: nat
  headers :: "(string \<times> string) list"
  body :: jsval

definition respond :: "nat \<Rightarrow> jsval \<Rightarrow> response" where
  "respond code json = \<lparr>status = code, headers = [], body = json\<rparr>"

definition error_json :: "string \<Rightarrow> jsval" where
  "error_json msg = JObj [(''error'', JStr msg)]"

section \<open>The single-lookup endpoint: api/get-score.js\<close>

text \<open>
  The file holds two copies of the handler and of its adapters, which differ in the
  wording of two messages only; the model follows the first copy. Names of this file
  carry the prefix \<open>gs_\<close>. An adapter returns the events it caused (the request first)
  and either the exception it threw or the object it returned.
\<close>

text \<open>\<^verbatim>\<open>stats.find(s => s.difficulty === label)?.count || 0\<close>\<close>

definition bucket :: "string \<Rightarrow> submission list \<Rightarrow> jsval" where
  "bucket label stats =
     (case find (\<lambda>s. difficulty s = label) stats of
        None \<Rightarrow> JNum 0
      | Some s \<Rightarrow> or_zero (JNum (count s)))"

definition leetcode_record :: "submission list \<Rightarrow> obj" where
  "leetcode_record stats =
     [(''leetcode'', JObj
        [(''problems_solved'', bucket ''All'' stats),
         (''Easy'', bucket ''Easy'' stats),
         (''Medium'', bucket ''Medium'' stats),
         (''Hard'', bucket ''Hard'' stats)])]"

definition leetcode_url :: string where
  "leetcode_url = ''https://leetcode.com/graphql''"

definition gs_getLeetCodeStats :: "upstream \<Rightarrow> qvalue \<Rightarrow> event list \<times> (exn + obj)" where
  "gs_getLeetCodeStats up username =
     ([HttpPost leetcode_url username],
      case axios_post_leetcode up username of
        Inl e \<Rightarrow> Inl e
      | Inr data \<Rightarrow>
          (case errors data of
             Some [] \<Rightarrow> Inl (TypeError ''Cannot read properties of undefined'')
           | Some (m # ms) \<Rightarrow> Inl (ThrownError m)
           | None \<Rightarrow>
               (case acSubmissionNum data of
                  None \<Rightarrow> Inl (TypeError ''Cannot read properties of undefined'')
                | Some stats \<Rightarrow> Inr (leetcode_record stats))))"

definition codechef_url :: "string \<Rightarrow> string" where
  "codechef_url username = ''https://www.codechef.com/users/'' @ username"

definition codechef_record :: "nat option \<Rightarrow> codechef_page \<Rightarrow> obj" where
  "codechef_record radix page =
     (let rating = or_else (trim (rating_number page)) ''0'';
          stars = or_else (trim (span_rating page)) ''Unrated'';
          problems_solved =
            (case match_digits (h3_total_problems_solved page) of
               Some m \<Rightarrow> m | None \<Rightarrow> ''0'');
          contests_participated = or_else (contest_participated_count_b page) ''0''
      in [(''codechef'', JObj
            [(''problems_solved'', parseInt problems_solved radix),
             (''contest_rating'', parseInt rating radix),
             (''stars'', JStr stars),
             (''contests_participated'', parseInt contests_participated radix)])])"

definition gs_getCodeChefStats :: "upstream \<Rightarrow> qvalue \<Rightarrow> event list \<times> (exn + obj)" where
  "gs_getCodeChefStats up username =
     ([HttpGet (codechef_url (to_string username))],
      case axios_get_codechef up (to_string username) of
        Inl e \<Rightarrow> Inl e
      | Inr page \<Rightarrow> Inr (codechef_record (Some 10) page))"

definition hackerrank_url :: "string \<Rightarrow> string" where
  "hackerrank_url username = ''https://www.hackerrank.com/profile/'' @ username"

definition hackerrank_record :: "hackerrank_page \<Rightarrow> obj" where
  "hackerrank_record page =
     [(''hackerrank'', JObj [(''badges'', or_zero (JNum (int (hacker_badge page))))])]"

definition gs_getHackerRankStats :: "upstream \<Rightarrow> qvalue \<Rightarrow> event list \<times> (exn + obj)" where
  "gs_getHackerRankStats up username =
     ([HttpGet (hackerrank_url (to_string username))],
      case axios_get_hackerrank up (to_string username) of
        Inl e \<Rightarrow> Inl e
      | Inr page \<Rightarrow> Inr (hackerrank_record page))"

definition gfg_url :: "string \<Rightarrow> string" where
  "gfg_url username = ''https://auth.geeksforgeeks.org/user/'' @ username"

text \<open>\<^verbatim>\<open>c || 0\<close> on a count that may be absent.\<close>

definition count_or_zero :: "int option \<Rightarrow> jsval" where
  "count_or_zero c = (case c of None \<Rightarrow> JNum 0 | Some n \<Rightarrow> or_zero (JNum n))"

definition gfg_fields :: "jsval \<Rightarrow> jsval \<Rightarrow> jsval \<Rightarrow> jsval \<Rightarrow> jsval \<Rightarrow> obj" where
  "gfg_fields username totalProblemsSolved e m h =
     [(''username'', username),
      (''totalProblemsSolved'', totalProblemsSolved),
      (''easyProblems'', e),
      (''mediumProblems'', m),
      (''hardProblems'', h)]"

text \<open>
  The adapter of get-score.js catches what \<^verbatim>\<open>JSON.parse\<close> and the reads of the counts
  throw, logs it and keeps the zeros; it returns a flat object.
\<close>

definition gs_getGfgStats :: "upstream \<Rightarrow> qvalue \<Rightarrow> event list \<times> (exn + obj)" where
  "gs_getGfgStats up username =
     (case axios_get_gfg up (to_string username) of
        Inl e \<Rightarrow> ([HttpGet (gfg_url (to_string username))], Inl e)
      | Inr page \<Rightarrow>
          (let totalProblemsSolved = or_zero (parseInt (score_card_value page) (Some 10))
           in case user_profile_data page of
                NoProfileData \<Rightarrow>
                  ([HttpGet (gfg_url (to_string username))],
                   Inr (gfg_fields (to_json username) totalProblemsSolved (JNum 0) (JNum 0) (JNum 0)))
              | ProfileData (Some c) \<Rightarrow>
                  ([HttpGet (gfg_url (to_string username))],
                   Inr (gfg_fields (to_json username) totalProblemsSolved
                          (count_or_zero (easy c)) (count_or_zero (medium c))
                          (count_or_zero (hard c))))
              | _ \<Rightarrow>
                  ([HttpGet (gfg_url (to_string username)),
                    ConsoleError ''Could not parse GFG JSON data from script tag''],
                   Inr (gfg_fields (to_json username) totalProblemsSolved (JNum 0) (JNum 0) (JNum 0)))))"

text \<open>
  \<^verbatim>\<open>request.query\<close>: each parameter is \<^verbatim>\<open>undefined\<close> when absent, a string, or an
  array of strings when it is given several times.
\<close>

record query =
  platform_param :: "qvalue option"
  username_param :: "qvalue option"

definition supported :: "string list" where
  "supported = [''leetcode'', ''codechef'', ''hackerrank'', ''gfg'']"

definition gs_dispatch :: "upstream \<Rightarrow> string \<Rightarrow> qvalue \<Rightarrow> (event list \<times> (exn + obj)) option" where
  "gs_dispatch up p u =
     (if p = ''leetcode'' then Some (gs_getLeetCodeStats up u)
      else if p = ''codechef'' then Some (gs_getCodeChefStats up u)
      else if p = ''hackerrank'' then Some (gs_getHackerRankStats up u)
      else if p = ''gfg'' then Some (gs_getGfgStats up u)
      else None)"

definition gs_failure_message :: "string \<Rightarrow> string" where
  "gs_failure_message p =
     ''Failed to fetch stats for '' @ p @
     ''. The user might not exist or the site's layout may have changed.''"

text \<open>
  The handler. An array has no \<^verbatim>\<open>toLowerCase\<close>: on a repeated platform parameter the
  call throws a TypeError inside the \<^verbatim>\<open>try\<close> block, before any adapter is chosen.
\<close>

definition gs_handler :: "upstream \<Rightarrow> query \<Rightarrow> response \<times> event list" where
  "gs_handler up q =
     (if \<not> present (platform_param q) \<or> \<not> present (username_param q)
      then (respond 400 (error_json ''Platform and username are required query parameters.''), [])
      else
        (case (platform_param q, username_param q) of
           (Some (Arr ps), Some u) \<Rightarrow>
             (respond 500 (error_json (gs_failure_message (to_string (Arr ps)))),
              [ConsoleError (''Scraping Error for '' @ to_string (Arr ps) @ '' user '' @
                             to_string u @ '':'')])
         | (Some (Str p), Some u) \<Rightarrow>
             (case gs_dispatch up (toLowerCase p) u of
                None \<Rightarrow> (respond 400 (error_json ''Unsupported platform provided.''), [])
              | Some (evs, Inl e) \<Rightarrow>
                  (respond 500 (error_json (gs_failure_message p)),
                   evs @ [ConsoleError (''Scraping Error for '' @ p @ '' user '' @
                                        to_string u @ '':'')])
              | Some (evs, Inr data) \<Rightarrow>
                  (\<lparr>status = 200,
                    headers = [(''Cache-Control'', ''s-maxage=3600, stale-while-revalidate'')],
                    body = JObj data\<rparr>, evs))
         | _ \<Rightarrow> (respond 400 (error_json ''Platform and username are required query parameters.''), [])))"

section \<open>The refresh endpoint: api/refresh-stats.js\<close>

text \<open>
  The repository holds two revisions of this file. Their handlers differ only in one
  log line; their adapters differ in what happens when the request or the parsing throws:
  in \<open>Plain\<close> (\<^verbatim>\<open>api/refresh-stats.js\<close>, adapters with the prefix \<open>rs_\<close>) the promise
  is rejected, in \<open>Guarded\<close> (the revision whose adapters are "wrapped in a try-catch
  block for robustness", prefix \<open>p0_\<close>) the adapter logs the error and returns
  \<^verbatim>\<open>null\<close>. In \<^verbatim>\<open>api/refresh-stats.js\<close> each adapter is declared twice, first with an
  empty body; the model follows the second, full declarations.
\<close>

datatype revision = Plain | Guarded

datatype platform = LeetCode | CodeChef | HackerRank | Gfg

datatype settled = Fulfilled "obj option" | Rejected exn

text \<open>
  A started adapter call: the request it issued when it was called, what it logged once
  the answer had arrived, and how its promise settled (\<open>Fulfilled None\<close> is a promise
  fulfilled with \<^verbatim>\<open>null\<close>).
\<close>

record call =
  site :: platform
  request :: event
  logs :: "event list"
  outcome :: settled

definition settle :: "platform \<Rightarrow> event \<Rightarrow> event list \<times> settled \<Rightarrow> call" where
  "settle p req r = \<lparr>site = p, request = req, logs = fst r, outcome = snd r\<rparr>"

definition rs_getLeetCodeStats :: "upstream \<Rightarrow> string \<Rightarrow> call" where
  "rs_getLeetCodeStats up username =
     settle LeetCode (HttpPost leetcode_url (Str username))
       (case axios_post_leetcode up (Str username) of
          Inl e \<Rightarrow> ([], Rejected e)
        | Inr data \<Rightarrow>
            if errors data \<noteq> None then ([], Fulfilled None)
            else (case acSubmissionNum data of
                    None \<Rightarrow> ([], Rejected (TypeError ''Cannot read properties of undefined''))
                  | Some stats \<Rightarrow> ([], Fulfilled (Some (leetcode_record stats)))))"

definition rs_getCodeChefStats :: "upstream \<Rightarrow> string \<Rightarrow> call" where
  "rs_getCodeChefStats up username =
     settle CodeChef (HttpGet (codechef_url username))
       (case axios_get_codechef up username of
          Inl e \<Rightarrow> ([], Rejected e)
        | Inr page \<Rightarrow> ([], Fulfilled (Some (codechef_record None page))))"

definition rs_getHackerRankStats :: "upstream \<Rightarrow> string \<Rightarrow> call" where
  "rs_getHackerRankStats up username =
     settle HackerRank (HttpGet (hackerrank_url username))
       (case axios_get_hackerrank up username of
          Inl e \<Rightarrow> ([], Rejected e)
        | Inr page \<Rightarrow> ([], Fulfilled (Some (hackerrank_record page))))"

text \<open>In the refresh endpoint the GeeksforGeeks record is nested under its own key.\<close>

definition gfg_record :: "string \<Rightarrow> jsval \<Rightarrow> jsval \<Rightarrow> jsval \<Rightarrow> jsval \<Rightarrow> obj" where
  "gfg_record username totalProblemsSolved e m h =
     [(''gfg'', JObj (gfg_fields (JStr username) totalProblemsSolved e m h))]"

definition rs_getGfgStats :: "upstream \<Rightarrow> string \<Rightarrow> call" where
  "rs_getGfgStats up username =
     settle Gfg (HttpGet (gfg_url username))
       (case axios_get_gfg up username of
          Inl e \<Rightarrow> ([], Rejected e)
        | Inr page \<Rightarrow>
            (let totalProblemsSolved = or_zero (parseInt (score_card_value page) None)
             in case user_profile_data page of
                  NoProfileData \<Rightarrow>
                    ([], Fulfilled (Some (gfg_record username totalProblemsSolved
                                            (JNum 0) (JNum 0) (JNum 0))))
                | InvalidJson \<Rightarrow> ([], Rejected (SyntaxError ''Unexpected token in JSON''))
                | ProfileData None \<Rightarrow>
                    ([], Rejected (TypeError ''Cannot read properties of undefined''))
                | ProfileData (Some c) \<Rightarrow>
                    ([], Fulfilled (Some (gfg_record username totalProblemsSolved
                                            (count_or_zero (easy c)) (count_or_zero (medium c))
                                            (count_or_zero (hard c)))))))"

definition p0_getLeetCodeStats :: "upstream \<Rightarrow> string \<Rightarrow> call" where
  "p0_getLeetCodeStats up username =
     settle LeetCode (HttpPost leetcode_url (Str username))
       (case axios_post_leetcode up (Str username) of
          Inl e \<Rightarrow>
            ([ConsoleError (''Error scraping LeetCode for user '' @ username @ '':'')],
             Fulfilled None)
        | Inr data \<Rightarrow>
            if errors data \<noteq> None
            then ([ConsoleError (''LeetCode GraphQL error for user '' @ username @ '':'')],
                  Fulfilled None)
            else (case acSubmissionNum data of
                    None \<Rightarrow>
                      ([ConsoleError (''Error scraping LeetCode for user '' @ username @ '':'')],
                       Fulfilled None)
                  | Some stats \<Rightarrow> ([], Fulfilled (Some (leetcode_record stats)))))"

definition p0_getCodeChefStats :: "upstream \<Rightarrow> string \<Rightarrow> call" where
  "p0_getCodeChefStats up username =
     settle CodeChef (HttpGet (codechef_url username))
       (case axios_get_codechef up username of
          Inl e \<Rightarrow>
            ([ConsoleError (''Error scraping CodeChef for user '' @ username @ '':'')],
             Fulfilled None)
        | Inr page \<Rightarrow> ([], Fulfilled (Some (codechef_record None page))))"

definition p0_getHackerRankStats :: "upstream \<Rightarrow> string \<Rightarrow> call" where
  "p0_getHackerRankStats up username =
     settle HackerRank (HttpGet (hackerrank_url username))
       (case axios_get_hackerrank up username of
          Inl e \<Rightarrow>
            ([ConsoleError (''Error scraping HackerRank for user '' @ username @ '':'')],
             Fulfilled None)
        | Inr page \<Rightarrow> ([], Fulfilled (Some (hackerrank_record page))))"

definition p0_getGfgStats :: "upstream \<Rightarrow> string \<Rightarrow> call" where
  "p0_getGfgStats up username =
     settle Gfg (HttpGet (gfg_url username))
       (case axios_get_gfg up username of
          Inl e \<Rightarrow>
            ([ConsoleError (''Error scraping GFG for user '' @ username @ '':'')],
             Fulfilled None)
        | Inr page \<Rightarrow>
            (let totalProblemsSolved = or_zero (parseInt (score_card_value page) (Some 10))
             in case user_profile_data page of
                  NoProfileData \<Rightarrow>
                    ([], Fulfilled (Some (gfg_record username totalProblemsSolved
                                            (JNum 0) (JNum 0) (JNum 0))))
                | ProfileData (Some c) \<Rightarrow>
                    ([], Fulfilled (Some (gfg_record username totalProblemsSolved
                                            (count_or_zero (easy c)) (count_or_zero (medium c))
                                            (count_or_zero (hard c)))))
                | _ \<Rightarrow>
                    ([ConsoleError ''Could not parse GFG JSON data from script tag:''],
                     Fulfilled (Some (gfg_record username totalProblemsSolved
                                        (JNum 0) (JNum 0) (JNum 0))))))"

fun getLeetCodeStats :: "revision \<Rightarrow> upstream \<Rightarrow> string \<Rightarrow> call" where
  "getLeetCodeStats Plain = rs_getLeetCodeStats"
| "getLeetCodeStats Guarded = p0_getLeetCodeStats"

fun getCodeChefStats :: "revision \<Rightarrow> upstream \<Rightarrow> string \<Rightarrow> call" where
  "getCodeChefStats Plain = rs_getCodeChefStats"
| "getCodeChefStats Guarded = p0_getCodeChefStats"

fun getHackerRankStats :: "revision \<Rightarrow> upstream \<Rightarrow> string \<Rightarrow> call" where
  "getHackerRankStats Plain = rs_getHackerRankStats"
| "getHackerRankStats Guarded = p0_getHackerRankStats"

fun getGfgStats :: "revision \<Rightarrow> upstream \<Rightarrow> string \<Rightarrow> call" where
  "getGfgStats Plain = rs_getGfgStats"
| "getGfgStats Guarded = p0_getGfgStats"

subsection \<open>The identity and profile gateway, requests\<close>

record user_data =
  leetcode_username :: "string option"
  codechef_username :: "string option"
  hackerrank_username :: "string option"
  gfg_username :: "string option"

text \<open>
  \<open>verifyIdToken\<close> answers the verified uid or throws. \<open>doc_fetch\<close> is what
  \<^verbatim>\<open>db.collection('users').doc(uid).get()\<close> answers: the stored profile (\<open>None\<close> when there
  is no document) or what the read throws. \<open>doc_update\<close> is the write of \<^verbatim>\<open>stats\<close>
  (with the server timestamp), \<open>Some e\<close> when it throws. \<open>latency\<close> orders the
  completions of the started calls: a call with a smaller latency settles first.

  The handler calls \<^verbatim>\<open>docSnap.exists()\<close>. Whether a snapshot has a function under that
  name depends on the client library, so it is a component of the world:
  \<open>exists_is_function\<close>. The file imports \<^verbatim>\<open>firebase-admin\<close>, whose snapshots have
  \<^verbatim>\<open>exists\<close> as a boolean property: the deployed program runs in worlds where
  \<open>exists_is_function\<close> is false, and there the call throws a TypeError inside the
  \<^verbatim>\<open>try\<close> block.
\<close>

record world =
  net :: upstream
  verifyIdToken :: "string option \<Rightarrow> exn + string"
  doc_fetch :: "string \<Rightarrow> exn + user_data option"
  exists_is_function :: bool
  doc_update :: "string \<Rightarrow> obj \<Rightarrow> exn option"
  latency :: "platform \<Rightarrow> nat"

text \<open>
  Step 2 up to \<^verbatim>\<open>docSnap.data()\<close>: the read, then the call of \<^verbatim>\<open>exists()\<close>. The answer
  is the profile, \<open>None\<close> when the snapshot does not exist, or the exception thrown.
\<close>

definition doc_get :: "world \<Rightarrow> string \<Rightarrow> exn + user_data option" where
  "doc_get w uid =
     (case doc_fetch w uid of
        Inl e \<Rightarrow> Inl e
      | Inr docSnap \<Rightarrow>
          if exists_is_function w then Inr docSnap
          else Inl (TypeError ''docSnap.exists is not a function''))"

record request =
  http_method :: string
  authorization :: "string option"

subsection \<open>The handler\<close>

text \<open>\<^verbatim>\<open>if (userData.x_username) scrapePromises.push(getStats(userData.x_username))\<close>\<close>

definition push_if :: "string option \<Rightarrow> (string \<Rightarrow> call) \<Rightarrow> call list" where
  "push_if name adapter =
     (case name of None \<Rightarrow> [] | Some u \<Rightarrow> if u = [] then [] else [adapter u])"

definition scrapePromises :: "revision \<Rightarrow> upstream \<Rightarrow> user_data \<Rightarrow> call list" where
  "scrapePromises rv up userData =
     push_if (leetcode_username userData) (getLeetCodeStats rv up) @
     push_if (codechef_username userData) (getCodeChefStats rv up) @
     push_if (hackerrank_username userData) (getHackerRankStats rv up) @
     push_if (gfg_username userData) (getGfgStats rv up)"

text \<open>
  The started calls, each with its index in \<^verbatim>\<open>scrapePromises\<close>, in the order in which
  they settle: by latency, and in call order when the latencies are equal.
\<close>

definition completions :: "(platform \<Rightarrow> nat) \<Rightarrow> call list \<Rightarrow> (nat \<times> call) list" where
  "completions lat calls = sort_key (\<lambda>ic. lat (site (snd ic))) (enumerate 0 calls)"

text \<open>
  \<^verbatim>\<open>Promise.allSettled\<close>: as each call settles, its outcome is stored under the index of
  the call; once all have settled, the outcomes are answered by index.
\<close>

definition allSettled :: "(platform \<Rightarrow> nat) \<Rightarrow> call list \<Rightarrow> settled list" where
  "allSettled lat calls = map (\<lambda>ic. outcome (snd ic)) (sort_key fst (completions lat calls))"

text \<open>\<^verbatim>\<open>o[k] = v\<close>: an existing key keeps its place, a new key comes last.\<close>

fun set_prop :: "string \<Rightarrow> jsval \<Rightarrow> obj \<Rightarrow> obj" where
  "set_prop k v [] = [(k, v)]"
| "set_prop k v (p # ps) = (if fst p = k then (k, v) # ps else p # set_prop k v ps)"

definition Object_assign :: "obj \<Rightarrow> obj \<Rightarrow> obj" where
  "Object_assign target src = fold (\<lambda>(k, v) t. set_prop k v t) src target"

text \<open>One round of the \<^verbatim>\<open>results.forEach\<close> of step 4, on \<^verbatim>\<open>newStats\<close> and the log.\<close>

fun merge_result :: "revision \<Rightarrow> settled \<Rightarrow> obj \<times> event list \<Rightarrow> obj \<times> event list" where
  "merge_result rv (Fulfilled (Some v)) (newStats, evs) = (Object_assign newStats v, evs)"
| "merge_result rv (Fulfilled None) (newStats, evs) = (newStats, evs)"
| "merge_result Plain (Rejected e) (newStats, evs) = (newStats, evs)"
| "merge_result Guarded (Rejected e) (newStats, evs) =
     (newStats, evs @ [ConsoleError ''Scraping promise rejected:''])"

definition combine :: "revision \<Rightarrow> settled list \<Rightarrow> obj \<times> event list" where
  "combine rv results = fold (merge_result rv) results ([], [])"

definition success_json :: jsval where
  "success_json = JObj [(''success'', JBool True), (''message'', JStr ''Stats updated successfully.'')]"

definition internal_error :: "event list \<Rightarrow> response \<times> event list" where
  "internal_error evs =
     (respond 500 (error_json ''An internal error occurred while refreshing stats.''),
      evs @ [ConsoleError ''Error in refresh-stats handler:''])"

text \<open>\<^verbatim>\<open>authorization.split('Bearer ')[1]\<close>\<close>

definition idToken :: "string \<Rightarrow> string option" where
  "idToken a = at_index (split a ''Bearer '') 1"

text \<open>
  Step 1 of the handler, "Security Check": the method, the header and the token. It ends
  the request with a response, or gives the verified uid.
\<close>

definition authenticate :: "world \<Rightarrow> request \<Rightarrow> (response + string) \<times> event list" where
  "authenticate w req =
     (if http_method req \<noteq> ''POST''
      then (Inl (respond 405 (error_json ''Method Not Allowed. Use POST.'')), [])
      else
        (case authorization req of
           None \<Rightarrow> (Inl (respond 401 (error_json ''Unauthorized: Missing token.'')), [])
         | Some a \<Rightarrow>
             if a = [] \<or> \<not> startsWith a ''Bearer ''
             then (Inl (respond 401 (error_json ''Unauthorized: Missing token.'')), [])
             else
               (case verifyIdToken w (idToken a) of
                  Inl e \<Rightarrow>
                    (Inl (respond 403 (error_json ''Unauthorized: Invalid token.'')),
                     [VerifyIdToken_call (idToken a), ConsoleError ''Error verifying token:''])
                | Inr uid \<Rightarrow> (Inr uid, [VerifyIdToken_call (idToken a)]))))"

text \<open>
  Steps 2 to 5, the \<^verbatim>\<open>try\<close> block: fetch the profile, start the adapters, wait for all
  of them, combine, save. The requests are issued in the order of the calls; the logs of
  the adapters come in the order in which the calls settle.
\<close>

definition refresh :: "revision \<Rightarrow> world \<Rightarrow> string \<Rightarrow> response \<times> event list" where
  "refresh rv w uid =
     (case doc_get w uid of
        Inl e \<Rightarrow> internal_error [DocGet uid]
      | Inr None \<Rightarrow> (respond 404 (error_json ''User profile not found.''), [DocGet uid])
      | Inr (Some userData) \<Rightarrow>
          (let calls = scrapePromises rv (net w) userData;
               results = allSettled (latency w) calls;
               newStats = fst (combine rv results);
               evs = [DocGet uid] @ map request calls @
                     concat (map (\<lambda>ic. logs (snd ic)) (completions (latency w) calls)) @
                     snd (combine rv results) @ [DocUpdate uid newStats]
           in case doc_update w uid newStats of
                Some e \<Rightarrow> internal_error evs
              | None \<Rightarrow> (respond 200 success_json, evs)))"

definition handler :: "revision \<Rightarrow> world \<Rightarrow> request \<Rightarrow> response \<times> event list" where
  "handler rv w req =
     (case authenticate w req of
        (Inl resp, evs) \<Rightarrow> (resp, evs)
      | (Inr uid, evs) \<Rightarrow> (fst (refresh rv w uid), evs @ snd (refresh rv w uid)))"

section \<open>Vocabulary of the properties\<close>

fun platform_key :: "platform \<Rightarrow> string" where
  "platform_key LeetCode = ''leetcode''"
| "platform_key CodeChef = ''codechef''"
| "platform_key HackerRank = ''hackerrank''"
| "platform_key Gfg = ''gfg''"

text \<open>A call succeeded when its promise was fulfilled with a record; else it failed.\<close>

fun succeeded :: "settled \<Rightarrow> bool" where
  "succeeded (Fulfilled (Some v)) = True"
| "succeeded (Fulfilled None) = False"
| "succeeded (Rejected e) = False"

text \<open>
  The aggregate of a profile: the merge of the outcomes of its calls, taken in the order
  of the calls.
\<close>

definition aggregate :: "revision \<Rightarrow> upstream \<Rightarrow> user_data \<Rightarrow> obj" where
  "aggregate rv up userData = fst (combine rv (map outcome (scrapePromises rv up userData)))"

text \<open>What a settled call contributes to the aggregate.\<close>

fun entries :: "settled \<Rightarrow> obj" where
  "entries (Fulfilled (Some v)) = v"
| "entries (Fulfilled None) = []"
| "entries (Rejected e) = []"

definition keys :: "obj \<Rightarrow> string set" where
  "keys ob = fst ` set ob"

fun is_http :: "event \<Rightarrow> bool" where
  "is_http (HttpPost url u) = True"
| "is_http (HttpGet url) = True"
| "is_http e = False"

fun is_profile_access :: "event \<Rightarrow> bool" where
  "is_profile_access (DocGet uid) = True"
| "is_profile_access (DocUpdate uid ob) = True"
| "is_profile_access e = False"

text \<open>The writes to the profile store in a trace, in order.\<close>

fun updates :: "event list \<Rightarrow> (string \<times> obj) list" where
  "updates [] = []"
| "updates (DocUpdate uid ob # evs) = (uid, ob) # updates evs"
| "updates (e # evs) = updates evs"

text \<open>The platforms for which the profile has a user name.\<close>

definition configured :: "user_data \<Rightarrow> platform set" where
  "configured userData =
     (if truthy (leetcode_username userData) then {LeetCode} else {}) \<union>
     (if truthy (codechef_username userData) then {CodeChef} else {}) \<union>
     (if truthy (hackerrank_username userData) then {HackerRank} else {}) \<union>
     (if truthy (gfg_username userData) then {Gfg} else {})"

text \<open>The response codes that the description of the refresh endpoint lists.\<close>

definition listed_refresh_codes :: "nat list" where
  "listed_refresh_codes = [200, 401, 403, 404, 500]"

text \<open>
  A call is keyed when its record, if it has one, has the key of its platform and no other.
\<close>

definition keyed :: "call \<Rightarrow> bool" where
  "keyed c = (map fst (entries (outcome c)) = (if succeeded (outcome c) then [platform_key (site c)] else []))"

section \<open>A sample world\<close>

text \<open>
  The example of the description: the profile of alice has a LeetCode and a CodeChef user
  name, LeetCode answers her counts and CodeChef times out. In \<open>demo_world\<close> the
  snapshots have a function \<^verbatim>\<open>exists\<close>; \<open>admin_world\<close> is the same world with the
  snapshots of \<^verbatim>\<open>firebase-admin\<close>, where \<^verbatim>\<open>exists\<close> is a property.
\<close>

definition alice_stats :: "submission list" where
  "alice_stats =
     [\<lparr>difficulty = ''All'', count = 120\<rparr>, \<lparr>difficulty = ''Easy'', count = 80\<rparr>,
      \<lparr>difficulty = ''Medium'', count = 35\<rparr>, \<lparr>difficulty = ''Hard'', count = 5\<rparr>]"

definition demo_upstream :: upstream where
  "demo_upstream =
     \<lparr>axios_post_leetcode =
        (\<lambda>u. if u = Str ''alice'' then Inr \<lparr>errors = None, acSubmissionNum = Some alice_stats\<rparr>
             else if u = Str ''ghost''
             then Inr \<lparr>errors = Some [''That user does not exist.''], acSubmissionNum = None\<rparr>
             else Inl (AxiosError ''Network Error'')),
      axios_get_codechef = (\<lambda>u. Inl (AxiosError ''timeout of 1000ms exceeded'')),
      axios_get_hackerrank = (\<lambda>u. Inr \<lparr>hacker_badge = 3\<rparr>),
      axios_get_gfg =
        (\<lambda>u. Inr \<lparr>score_card_value = ''42'',
                   user_profile_data =
                     ProfileData (Some \<lparr>easy = Some 10, medium = Some 20, hard = None\<rparr>)\<rparr>)\<rparr>"

definition all_profile :: user_data where
  "all_profile =
     \<lparr>leetcode_username = Some ''alice'', codechef_username = Some ''bob'',
      hackerrank_username = Some ''carol'', gfg_username = Some ''dave''\<rparr>"

definition demo_profile :: "string \<Rightarrow> user_data option" where
  "demo_profile uid =
     (if uid = ''uid-alice'' \<or> uid = ''uid-readonly''
      then Some \<lparr>leetcode_username = Some ''alice'', codechef_username = Some ''bob'',
                 hackerrank_username = None, gfg_username = None\<rparr>
      else if uid = ''uid-bare''
      then Some \<lparr>leetcode_username = None, codechef_username = Some [],
                 hackerrank_username = None, gfg_username = None\<rparr>
      else if uid = ''uid-unlucky''
      then Some \<lparr>leetcode_username = Some ''ghost'', codechef_username = Some ''bob'',
                 hackerrank_username = None, gfg_username = None\<rparr>
      else if uid = ''uid-all''
      then Some all_profile
      else None)"

definition demo_world :: world where
  "demo_world =
     \<lparr>net = demo_upstream,
      verifyIdToken =
        (\<lambda>t. case t of
               None \<Rightarrow> Inl (ThrownError ''auth/argument-error'')
             | Some tok \<Rightarrow>
                 if tok \<in> set [''alice'', ''readonly'', ''bare'', ''unlucky'', ''new'', ''all'']
                 then Inr (''uid-'' @ tok)
                 else Inl (ThrownError ''auth/argument-error'')),
      doc_fetch = (\<lambda>uid. Inr (demo_profile uid)),
      exists_is_function = True,
      doc_update = (\<lambda>uid ob. if uid = ''uid-readonly'' then Some (ThrownError ''unavailable'') else None),
      latency = (\<lambda>p. 0)\<rparr>"

definition admin_world :: world where
  "admin_world = demo_world\<lparr>exists_is_function := False\<rparr>"

section \<open>Objects and the merge\<close>

lemma set_prop_new: "k \<notin> fst ` set ob \<Longrightarrow> set_prop k v ob = ob @ [(k, v)]"
  by (induction ob) auto

lemma map_of_set_prop: "map_of (set_prop k v ob) = (map_of ob)(k \<mapsto> v)"
  by (induction ob) (auto simp: fun_eq_iff)

lemma keys_set_prop: "keys (set_prop k v ob) = insert k (keys ob)"
  by (induction ob) (auto simp: keys_def)

lemma Object_assign_append:
  "distinct (map fst src) \<Longrightarrow> fst ` set src \<inter> fst ` set t = {} \<Longrightarrow> Object_assign t src = t @ src"
  unfolding Object_assign_def
proof (induction src arbitrary: t)
  case Nil
  then show ?case by simp
next
  case (Cons p src)
  obtain k v where p: "p = (k, v)" by (cases p)
  have new: "k \<notin> fst ` set t" using Cons.prems(2) p by auto
  have d: "distinct (map fst src)" using Cons.prems(1) by simp
  have disj: "fst ` set src \<inter> fst ` set (t @ [(k, v)]) = {}"
    using Cons.prems p by auto
  show ?case using Cons.IH [OF d disj] new p by (simp add: set_prop_new)
qed

lemma map_of_Object_assign: "map_of (Object_assign t src) = map_of t ++ map_of (rev src)"
  unfolding Object_assign_def
  apply (induction src arbitrary: t)
  apply (auto simp: map_of_set_prop fun_eq_iff map_add_def split: option.splits)
  done

lemma keys_Nil: "keys [] = {}"
  by (simp add: keys_def)

lemma keys_Cons: "keys (p # ob) = insert (fst p) (keys ob)"
  by (simp add: keys_def)

lemma keys_append: "keys (xs @ ys) = keys xs \<union> keys ys"
  by (auto simp: keys_def)

lemma keys_Object_assign: "keys (Object_assign t src) = keys t \<union> keys src"
  unfolding Object_assign_def
  by (induction src arbitrary: t) (auto simp: keys_set_prop keys_Nil keys_Cons)

lemma fold_merge_result_snd_indep:
  "fst (fold (merge_result rv) rs (acc, evs)) = fst (fold (merge_result rv) rs (acc, evs'))"
  apply (induction rs arbitrary: acc evs evs')
   apply simp
  subgoal for r rs acc evs evs'
    apply (cases r; cases rv)
    subgoal for x by (cases x) auto
    subgoal for x by (cases x) auto
    by auto
  done

lemma fold_merge_result_entries:
  "distinct (map fst (acc @ concat (map entries rs))) \<Longrightarrow>
   fst (fold (merge_result rv) rs (acc, evs)) = acc @ concat (map entries rs)"
proof (induction rs arbitrary: acc evs)
  case Nil
  then show ?case by simp
next
  case (Cons r rs)
  have step: "fst (merge_result rv r (acc, evs)) = acc @ entries r"
  proof (cases r)
    case (Fulfilled x)
    show ?thesis
    proof (cases x)
      case None
      then show ?thesis using Fulfilled by simp
    next
      case (Some v)
      have "distinct (map fst v)" and "fst ` set v \<inter> fst ` set acc = {}"
        using Cons.prems Fulfilled Some by auto
      then show ?thesis using Fulfilled Some by (simp add: Object_assign_append)
    qed
  next
    case (Rejected e)
    then show ?thesis by (cases rv) simp_all
  qed
  obtain a' e' where m: "merge_result rv r (acc, evs) = (a', e')" by (cases "merge_result rv r (acc, evs)")
  have a': "a' = acc @ entries r" using step m by simp
  have "distinct (map fst (a' @ concat (map entries rs)))" using Cons.prems a' by simp
  from Cons.IH [OF this] show ?case using m a' by simp
qed

section \<open>The adapters and the fan-out\<close>

lemma site_getLeetCodeStats: "site (getLeetCodeStats rv up u) = LeetCode"
  by (cases rv) (simp_all add: rs_getLeetCodeStats_def p0_getLeetCodeStats_def settle_def)

lemma site_getCodeChefStats: "site (getCodeChefStats rv up u) = CodeChef"
  by (cases rv) (simp_all add: rs_getCodeChefStats_def p0_getCodeChefStats_def settle_def)

lemma site_getHackerRankStats: "site (getHackerRankStats rv up u) = HackerRank"
  by (cases rv) (simp_all add: rs_getHackerRankStats_def p0_getHackerRankStats_def settle_def)

lemma site_getGfgStats: "site (getGfgStats rv up u) = Gfg"
  by (cases rv) (simp_all add: rs_getGfgStats_def p0_getGfgStats_def settle_def)

lemma keyed_getLeetCodeStats: "keyed (getLeetCodeStats rv up u)"
  by (cases rv)
     (simp_all add: keyed_def rs_getLeetCodeStats_def p0_getLeetCodeStats_def settle_def
        leetcode_record_def split: sum.splits option.splits)

lemma keyed_getCodeChefStats: "keyed (getCodeChefStats rv up u)"
  by (cases rv)
     (simp_all add: keyed_def rs_getCodeChefStats_def p0_getCodeChefStats_def settle_def
        codechef_record_def Let_def split: sum.splits option.splits)

lemma keyed_getHackerRankStats: "keyed (getHackerRankStats rv up u)"
  by (cases rv)
     (simp_all add: keyed_def rs_getHackerRankStats_def p0_getHackerRankStats_def settle_def
        hackerrank_record_def split: sum.splits option.splits)

lemma keyed_getGfgStats: "keyed (getGfgStats rv up u)"
  by (cases rv)
     (simp_all add: keyed_def rs_getGfgStats_def p0_getGfgStats_def settle_def
        gfg_record_def Let_def split: sum.splits option.splits profile_script.splits)

lemma push_if_site:
  "(\<And>u. site (f u) = p) \<Longrightarrow> map site (push_if name f) = (if truthy name then [p] else [])"
  by (cases name) (simp_all add: push_if_def)

lemma push_if_keyed: "(\<And>u. keyed (f u)) \<Longrightarrow> c \<in> set (push_if name f) \<Longrightarrow> keyed c"
  by (cases name) (auto simp: push_if_def split: if_splits)

lemma sites_scrapePromises:
  "map site (scrapePromises rv up ud) =
     filter (\<lambda>p. p \<in> configured ud) [LeetCode, CodeChef, HackerRank, Gfg]"
  by (simp add: scrapePromises_def configured_def
        push_if_site [of "getLeetCodeStats rv up" LeetCode, OF site_getLeetCodeStats]
        push_if_site [of "getCodeChefStats rv up" CodeChef, OF site_getCodeChefStats]
        push_if_site [of "getHackerRankStats rv up" HackerRank, OF site_getHackerRankStats]
        push_if_site [of "getGfgStats rv up" Gfg, OF site_getGfgStats])

lemma distinct_sites_scrapePromises: "distinct (map site (scrapePromises rv up ud))"
  by (simp add: sites_scrapePromises)

lemma set_sites_scrapePromises: "site ` set (scrapePromises rv up ud) = configured ud"
proof -
  have "set (map site (scrapePromises rv up ud)) = configured ud"
    unfolding sites_scrapePromises by (auto simp: configured_def split: if_splits)
  then show ?thesis by simp
qed

lemma keyed_scrapePromises: "c \<in> set (scrapePromises rv up ud) \<Longrightarrow> keyed c"
  unfolding scrapePromises_def
  by (auto dest: push_if_keyed [of "getLeetCodeStats rv up", OF keyed_getLeetCodeStats]
                 push_if_keyed [of "getCodeChefStats rv up", OF keyed_getCodeChefStats]
                 push_if_keyed [of "getHackerRankStats rv up", OF keyed_getHackerRankStats]
                 push_if_keyed [of "getGfgStats rv up", OF keyed_getGfgStats])

text \<open>
  In the guarded revision no promise is rejected. In both revisions a call whose request
  throws has failed.
\<close>

lemma guarded_never_rejects: "c \<in> set (scrapePromises Guarded up ud) \<Longrightarrow> outcome c \<noteq> Rejected e"
  by (auto simp: scrapePromises_def push_if_def settle_def Let_def
        p0_getLeetCodeStats_def p0_getCodeChefStats_def p0_getHackerRankStats_def p0_getGfgStats_def
        split: option.splits if_splits sum.splits profile_script.splits)

lemma request_error_fails:
  "axios_post_leetcode up (Str u) = Inl e \<Longrightarrow> \<not> succeeded (outcome (getLeetCodeStats rv up u))"
  "axios_get_codechef up u = Inl e \<Longrightarrow> \<not> succeeded (outcome (getCodeChefStats rv up u))"
  "axios_get_hackerrank up u = Inl e \<Longrightarrow> \<not> succeeded (outcome (getHackerRankStats rv up u))"
  "axios_get_gfg up u = Inl e \<Longrightarrow> \<not> succeeded (outcome (getGfgStats rv up u))"
  by (cases rv;
      simp add: settle_def rs_getLeetCodeStats_def rs_getCodeChefStats_def rs_getHackerRankStats_def
        rs_getGfgStats_def p0_getLeetCodeStats_def p0_getCodeChefStats_def
        p0_getHackerRankStats_def p0_getGfgStats_def)+

lemma inj_platform_key: "inj platform_key"
proof (rule injI)
  fix x y assume "platform_key x = platform_key y"
  then show "x = y" by (cases x; cases y) simp_all
qed

lemma keys_of_keyed_calls:
  "\<forall>c \<in> set cs. keyed c \<Longrightarrow>
   map fst (concat (map entries (map outcome cs))) =
     map (\<lambda>c. platform_key (site c)) (filter (\<lambda>c. succeeded (outcome c)) cs)"
  by (induction cs) (auto simp: keyed_def)

lemma distinct_keys_of_keyed_calls:
  assumes "\<forall>c \<in> set cs. keyed c" and "distinct (map site cs)"
  shows "distinct (map fst (concat (map entries (map outcome cs))))"
proof -
  have "distinct (map site (filter (\<lambda>c. succeeded (outcome c)) cs))"
    using assms(2) by (simp add: distinct_map_filter)
  then have "distinct (map platform_key (map site (filter (\<lambda>c. succeeded (outcome c)) cs)))"
    using inj_on_subset [OF inj_platform_key subset_UNIV] by (subst distinct_map) blast
  then show ?thesis
    using keys_of_keyed_calls [OF assms(1)] by (simp add: comp_def)
qed

text \<open>The aggregate of a list of keyed calls on distinct platforms: the records of the
  calls that succeeded, in the order of the calls.\<close>

lemma combine_keyed_calls:
  assumes "\<forall>c \<in> set cs. keyed c" and "distinct (map site cs)"
  shows "fst (combine rv (map outcome cs)) = concat (map entries (map outcome cs))"
  unfolding combine_def
  using fold_merge_result_entries [of "[]" "map outcome cs" rv "[]"]
        distinct_keys_of_keyed_calls [OF assms]
  by simp

section \<open>The steps of the refresh handler\<close>

lemma authenticate_uid:
  "authenticate w req = (Inr uid, evs) \<Longrightarrow>
   http_method req = ''POST'' \<and>
   (\<exists>a. authorization req = Some a \<and> startsWith a ''Bearer '' \<and>
        verifyIdToken w (idToken a) = Inr uid \<and> evs = [VerifyIdToken_call (idToken a)])"
  by (auto simp: authenticate_def split: if_splits option.splits sum.splits)

lemma authenticate_valid:
  "http_method req = ''POST'' \<Longrightarrow> authorization req = Some a \<Longrightarrow> startsWith a ''Bearer '' \<Longrightarrow>
   verifyIdToken w (idToken a) = Inr uid \<Longrightarrow>
   authenticate w req = (Inr uid, [VerifyIdToken_call (idToken a)])"
  by (auto simp: authenticate_def startsWith_def)

lemma handler_authenticated:
  "authenticate w req = (Inr uid, evs) \<Longrightarrow>
   handler rv w req = (fst (refresh rv w uid), evs @ snd (refresh rv w uid))"
  by (simp add: handler_def)

lemma handler_rejected:
  "authenticate w req = (Inl resp, evs) \<Longrightarrow> handler rv w req = (resp, evs)"
  by (simp add: handler_def)

text \<open>
  Whatever the order of completion, \<^verbatim>\<open>Promise.allSettled\<close> answers the outcomes in the
  order of the calls.
\<close>

lemma filter_key_singleton:
  "distinct (map f ys) \<Longrightarrow> k \<in> set ys \<Longrightarrow> filter (\<lambda>x. f k = f x) ys = [k]"
proof (induction ys)
  case Nil
  then show ?case by simp
next
  case (Cons y ys)
  show ?case
  proof (cases "k = y")
    case True
    have "\<forall>x \<in> set ys. f y \<noteq> f x" using Cons.prems(1) by auto
    then have "filter (\<lambda>x. f y = f x) ys = []" by (simp add: filter_empty_conv)
    then show ?thesis using True by simp
  next
    case False
    then have k: "k \<in> set ys" using Cons.prems(2) by simp
    have "f y \<notin> f ` set ys" using Cons.prems(1) by simp
    then have "f k \<noteq> f y" using k by (metis imageI)
    then show ?thesis using Cons.IH k Cons.prems(1) by simp
  qed
qed

lemma sort_key_fst_enumerate:
  assumes "mset zs = mset (enumerate 0 xs)"
  shows "sort_key fst zs = enumerate 0 xs"
proof (rule properties_for_sort_key)
  show "mset (enumerate 0 xs) = mset zs" using assms by simp
  show "sorted (map fst (enumerate 0 xs))" by (rule sorted_enumerate)
  fix k assume k: "k \<in> set (enumerate 0 xs)"
  have d: "distinct (map fst (enumerate 0 xs))" by (simp add: map_fst_enumerate)
  have "mset (map fst zs) = mset (map fst (enumerate 0 xs))" using assms by (metis mset_map)
  then have dz: "distinct (map fst zs)" using d by (metis mset_eq_imp_distinct_iff)
  have kz: "k \<in> set zs" using k assms by (metis mset_eq_setD)
  show "filter (\<lambda>x. fst k = fst x) (enumerate 0 xs) = filter (\<lambda>x. fst k = fst x) zs"
    using filter_key_singleton [OF d k] filter_key_singleton [OF dz kz] by simp
qed

lemma mset_completions: "mset (completions lat calls) = mset (enumerate 0 calls)"
  by (simp add: completions_def)

lemma completions_calls: "ic \<in> set (completions lat calls) \<Longrightarrow> snd ic \<in> set calls"
proof -
  assume "ic \<in> set (completions lat calls)"
  then have "ic \<in> set (enumerate 0 calls)" by (simp add: completions_def)
  then have "snd ic \<in> set (map snd (enumerate 0 calls))" by (simp only: set_map image_eqI)
  then show ?thesis by (simp only: map_snd_enumerate)
qed

lemma allSettled_input_order: "allSettled lat calls = map outcome calls"
proof -
  have "sort_key fst (completions lat calls) = enumerate 0 calls"
    by (rule sort_key_fst_enumerate [OF mset_completions])
  then have "allSettled lat calls = map (\<lambda>ic. outcome (snd ic)) (enumerate 0 calls)"
    by (simp add: allSettled_def)
  also have "\<dots> = map outcome (map snd (enumerate 0 calls))"
    by (simp only: map_map comp_def)
  also have "\<dots> = map outcome calls" by (simp only: map_snd_enumerate)
  finally show ?thesis .
qed

lemma refresh_loaded:
  "doc_get w uid = Inr (Some ud) \<Longrightarrow>
   refresh rv w uid =
     (let evs = [DocGet uid] @ map request (scrapePromises rv (net w) ud) @
                concat (map (\<lambda>ic. logs (snd ic)) (completions (latency w) (scrapePromises rv (net w) ud))) @
                snd (combine rv (map outcome (scrapePromises rv (net w) ud))) @
                [DocUpdate uid (aggregate rv (net w) ud)]
      in case doc_update w uid (aggregate rv (net w) ud) of
           Some e \<Rightarrow> internal_error evs
         | None \<Rightarrow> (respond 200 success_json, evs))"
  by (simp add: refresh_def aggregate_def allSettled_input_order Let_def)

section \<open>Properties of the refresh endpoint\<close>

text \<open>
  C10. A refresh request whose method is not POST is answered with 405, a code outside the
  listed ones, before anything else happens: the trace is empty, so no token was verified,
  no profile was read or written and no adapter was called.
\<close>

theorem handler_method_not_allowed:
  assumes "http_method req \<noteq> ''POST''"
  shows "status (fst (handler rv w req)) = 405 \<and> snd (handler rv w req) = [] \<and>
         status (fst (handler rv w req)) \<notin> set listed_refresh_codes"
  using assms by (simp add: handler_def authenticate_def respond_def listed_refresh_codes_def)

theorem handler_method_not_allowed_witness:
  "http_method \<lparr>http_method = ''GET'', authorization = Some ''Bearer alice''\<rparr> \<noteq> ''POST'' \<and>
   status (fst (handler Guarded demo_world \<lparr>http_method = ''GET'', authorization = Some ''Bearer alice''\<rparr>)) = 405 \<and>
   snd (handler Guarded demo_world \<lparr>http_method = ''GET'', authorization = Some ''Bearer alice''\<rparr>) = []"
  using handler_method_not_allowed [of "\<lparr>http_method = ''GET'', authorization = Some ''Bearer alice''\<rparr>" Guarded demo_world]
  by simp

lemma authenticate_statuses:
  "authenticate w req = (Inl resp, evs) \<Longrightarrow>
   status resp \<in> {405, 401, 403} \<and> (\<forall>ev \<in> set evs. \<not> is_profile_access ev \<and> \<not> is_http ev)"
  by (auto simp: authenticate_def respond_def split: if_splits option.splits sum.splits)

lemma refresh_statuses: "status (fst (refresh rv w uid)) \<in> {500, 404, 200}"
  by (auto simp: refresh_def internal_error_def respond_def Let_def split: sum.splits option.splits)

text \<open>
  As C3 is stated, for every refresh request, it fails on a request that is not a POST:
  without any Authorization header the answer is 405, from the method check that comes
  first, and not 401.
\<close>

theorem handler_auth_errors_counterexample:
  "authorization \<lparr>http_method = ''GET'', authorization = None\<rparr> = None \<and>
   status (fst (handler Plain demo_world \<lparr>http_method = ''GET'', authorization = None\<rparr>)) = 405 \<and>
   status (fst (handler Guarded demo_world \<lparr>http_method = ''GET'', authorization = None\<rparr>)) = 405"
  by (simp add: handler_def authenticate_def respond_def)

text \<open>
  C3, amended to POST requests. When the Authorization header is absent or does not start
  with \<^verbatim>\<open>Bearer \<close>, the answer is 401 and nothing has happened; when the token
  fails verification, the answer is 403 and the trace holds the verification and its log
  only. Whenever the answer is 401 or 403, the trace holds no read and no write of the
  profile store.
\<close>

theorem handler_auth_errors:
  assumes "http_method req = ''POST''"
  shows "(authorization req = None \<or> (\<exists>a. authorization req = Some a \<and> \<not> startsWith a ''Bearer '')
            \<longrightarrow> status (fst (handler rv w req)) = 401 \<and> snd (handler rv w req) = []) \<and>
         (\<forall>a e. authorization req = Some a \<and> startsWith a ''Bearer '' \<and>
                verifyIdToken w (idToken a) = Inl e
            \<longrightarrow> status (fst (handler rv w req)) = 403 \<and>
                snd (handler rv w req) =
                  [VerifyIdToken_call (idToken a), ConsoleError ''Error verifying token:'']) \<and>
         (status (fst (handler rv w req)) \<in> {401, 403}
            \<longrightarrow> (\<forall>ev \<in> set (snd (handler rv w req)). \<not> is_profile_access ev))"
proof (intro conjI impI allI)
  assume "authorization req = None \<or> (\<exists>a. authorization req = Some a \<and> \<not> startsWith a ''Bearer '')"
  then show "status (fst (handler rv w req)) = 401" and "snd (handler rv w req) = []"
    using assms by (auto simp: handler_def authenticate_def respond_def startsWith_def)
next
  fix a e
  assume h: "authorization req = Some a \<and> startsWith a ''Bearer '' \<and> verifyIdToken w (idToken a) = Inl e"
  then have "a \<noteq> []" by (auto simp: startsWith_def)
  then show "status (fst (handler rv w req)) = 403"
    and "snd (handler rv w req) = [VerifyIdToken_call (idToken a), ConsoleError ''Error verifying token:'']"
    using assms h by (simp_all add: handler_def authenticate_def respond_def)
next
  assume st: "status (fst (handler rv w req)) \<in> {401, 403}"
  show "\<forall>ev \<in> set (snd (handler rv w req)). \<not> is_profile_access ev"
  proof (cases "authenticate w req")
    case (Pair r evs)
    show ?thesis
    proof (cases r)
      case (Inl resp)
      then show ?thesis
        using Pair authenticate_statuses [of w req resp evs] by (simp add: handler_def)
    next
      case (Inr uid)
      then have "status (fst (handler rv w req)) = status (fst (refresh rv w uid))"
        using Pair by (simp add: handler_def)
      then show ?thesis using st refresh_statuses [of rv w uid] by auto
    qed
  qed
qed

theorem handler_auth_errors_witness:
  "http_method \<lparr>http_method = ''POST'', authorization = Some ''bearer alice''\<rparr> = ''POST'' \<and>
   \<not> startsWith ''bearer alice'' ''Bearer '' \<and>
   status (fst (handler Plain demo_world \<lparr>http_method = ''POST'', authorization = Some ''bearer alice''\<rparr>)) = 401 \<and>
   snd (handler Plain demo_world \<lparr>http_method = ''POST'', authorization = Some ''bearer alice''\<rparr>) = [] \<and>
   startsWith ''Bearer stale'' ''Bearer '' \<and>
   verifyIdToken demo_world (idToken ''Bearer stale'') = Inl (ThrownError ''auth/argument-error'') \<and>
   status (fst (handler Guarded demo_world \<lparr>http_method = ''POST'', authorization = Some ''Bearer stale''\<rparr>)) = 403 \<and>
   filter is_profile_access
     (snd (handler Guarded demo_world \<lparr>http_method = ''POST'', authorization = Some ''Bearer stale''\<rparr>)) = []"
proof -
  have tok: "idToken ''Bearer stale'' = Some ''stale''"
    by (simp add: idToken_def split_def at_index_def split_from.simps)
  have v: "verifyIdToken demo_world (idToken ''Bearer stale'') = Inl (ThrownError ''auth/argument-error'')"
    by (simp add: tok demo_world_def)
  show ?thesis
    using handler_auth_errors [of "\<lparr>http_method = ''POST'', authorization = Some ''bearer alice''\<rparr>" Plain demo_world]
      handler_auth_errors [of "\<lparr>http_method = ''POST'', authorization = Some ''Bearer stale''\<rparr>" Guarded demo_world]
      v
    by (simp add: startsWith_def filter_empty_conv)
qed

lemma split_from_nonempty: "split_from sep acc s \<noteq> []"
  by (induction sep acc s rule: split_from.induct) (subst split_from.simps, simp)

lemma split_from_no_sep:
  "\<forall>i. \<not> prefix sep (drop i s) \<Longrightarrow> split_from sep acc s = [rev acc @ s]"
proof (induction s arbitrary: acc)
  case Nil
  then show ?case by (subst split_from.simps) simp
next
  case (Cons c s)
  have here: "\<not> prefix sep (c # s)" using Cons.prems [rule_format, of 0] by simp
  have later: "\<forall>i. \<not> prefix sep (drop i s)"
  proof
    fix i show "\<not> prefix sep (drop i s)" using Cons.prems [rule_format, of "Suc i"] by simp
  qed
  show ?case
    using here Cons.IH [OF later, of "c # acc"] by (subst split_from.simps) simp
qed

lemma idToken_Some: "startsWith a ''Bearer '' \<Longrightarrow> \<exists>t. idToken a = Some t"
proof -
  assume "startsWith a ''Bearer ''"
  then obtain t where a: "a = ''Bearer '' @ t" by (auto simp: startsWith_def prefix_def)
  have "split_from ''Bearer '' [] a = [] # split_from ''Bearer '' [] t"
    unfolding a by (subst split_from.simps) simp
  moreover obtain x xs where "split_from ''Bearer '' [] t = x # xs"
    using split_from_nonempty [of "''Bearer ''" "[]" t] by (cases "split_from ''Bearer '' [] t") auto
  ultimately show ?thesis by (simp add: idToken_def split_def at_index_def)
qed

lemma idToken_plain:
  assumes "\<forall>i. \<not> prefix ''Bearer '' (drop i t)"
  shows "idToken (''Bearer '' @ t) = Some t"
proof -
  have "split_from ''Bearer '' [] (''Bearer '' @ t) = [] # split_from ''Bearer '' [] t"
    by (subst split_from.simps) simp
  then show ?thesis
    using split_from_no_sep [OF assms, of "[]"] by (simp add: idToken_def split_def at_index_def)
qed

text \<open>
  What the handler does after the token is verified, in a world where \<^verbatim>\<open>exists()\<close> can
  be called (\<open>doc_get\<close> answers \<open>Inr\<close> in such a world only). First, no profile: the
  answer is 404 and the trace holds the verification and the read only.
\<close>

lemma handler_no_profile:
  assumes "http_method req = ''POST''"
    and "authorization req = Some a" and "startsWith a ''Bearer ''"
    and "verifyIdToken w (idToken a) = Inr uid"
    and "doc_get w uid = Inr None"
  shows "status (fst (handler rv w req)) = 404 \<and>
         body (fst (handler rv w req)) = error_json ''User profile not found.'' \<and>
         snd (handler rv w req) = [VerifyIdToken_call (idToken a), DocGet uid] \<and>
         filter is_http (snd (handler rv w req)) = [] \<and>
         updates (snd (handler rv w req)) = []"
  using handler_authenticated [OF authenticate_valid [OF assms(1-4)], of rv] assms(5)
  by (simp add: refresh_def respond_def)

lemma updates_append: "updates (xs @ ys) = updates xs @ updates ys"
  by (induction xs rule: updates.induct) simp_all

lemma updates_none: "\<forall>ev \<in> set evs. \<not> is_profile_access ev \<Longrightarrow> updates evs = []"
  by (induction evs rule: updates.induct) simp_all

lemma request_is_http: "c \<in> set (scrapePromises rv up ud) \<Longrightarrow> is_http (request c)"
  by (cases rv)
     (auto simp: scrapePromises_def push_if_def settle_def
        rs_getLeetCodeStats_def rs_getCodeChefStats_def rs_getHackerRankStats_def rs_getGfgStats_def
        p0_getLeetCodeStats_def p0_getCodeChefStats_def p0_getHackerRankStats_def p0_getGfgStats_def
        split: option.splits if_splits)

lemma logs_are_console: "c \<in> set (scrapePromises rv up ud) \<Longrightarrow> ev \<in> set (logs c) \<Longrightarrow> \<exists>m. ev = ConsoleError m"
  by (cases rv)
     (auto simp: scrapePromises_def push_if_def settle_def Let_def
        rs_getLeetCodeStats_def rs_getCodeChefStats_def rs_getHackerRankStats_def rs_getGfgStats_def
        p0_getLeetCodeStats_def p0_getCodeChefStats_def p0_getHackerRankStats_def p0_getGfgStats_def
        split: option.splits if_splits sum.splits profile_script.splits)

lemma combine_logs_are_console:
  "ev \<in> set (snd (fold (merge_result rv) rs (acc, evs))) \<Longrightarrow> ev \<in> set evs \<or> (\<exists>m. ev = ConsoleError m)"
proof (induction rs arbitrary: acc evs)
  case Nil
  then show ?case by simp
next
  case (Cons r rs)
  obtain a' e' where m: "merge_result rv r (acc, evs) = (a', e')" by (cases "merge_result rv r (acc, evs)")
  have sub: "set e' \<subseteq> set evs \<union> {ev. \<exists>m. ev = ConsoleError m}"
    using m by (cases "(rv, r, (acc, evs))" rule: merge_result.cases) auto
  from Cons.prems m have "ev \<in> set (snd (fold (merge_result rv) rs (a', e')))" by simp
  from Cons.IH [OF this] sub show ?case by auto
qed

lemma updates_console: "\<forall>ev \<in> set evs. \<exists>m. ev = ConsoleError m \<Longrightarrow> updates evs = []"
  by (rule updates_none) auto

lemma updates_requests: "updates (map request (scrapePromises rv up ud)) = []"
  by (rule updates_none) (auto dest!: request_is_http elim: is_http.elims)

lemma updates_logs:
  "updates (concat (map (\<lambda>ic. logs (snd ic)) (completions lat (scrapePromises rv up ud)))) = []"
  by (rule updates_console) (auto dest: completions_calls logs_are_console)

lemma updates_combine: "updates (snd (combine rv rs)) = []"
  by (rule updates_console) (auto simp: combine_def dest: combine_logs_are_console)

text \<open>After a successful authentication and load, the handler writes once.\<close>

lemma handler_loaded:
  assumes "authenticate w req = (Inr uid, evs0)" and "doc_get w uid = Inr (Some ud)"
  shows "updates (snd (handler rv w req)) = [(uid, aggregate rv (net w) ud)]"
    and "status (fst (handler rv w req)) =
           (case doc_update w uid (aggregate rv (net w) ud) of None \<Rightarrow> 200 | Some e \<Rightarrow> 500)"
    and "body (fst (handler rv w req)) =
           (case doc_update w uid (aggregate rv (net w) ud) of
              None \<Rightarrow> success_json
            | Some e \<Rightarrow> error_json ''An internal error occurred while refreshing stats.'')"
proof -
  have ev0: "evs0 = [VerifyIdToken_call (idToken (the (authorization req)))]"
    using authenticate_uid [OF assms(1)] by auto
  show "updates (snd (handler rv w req)) = [(uid, aggregate rv (net w) ud)]"
    unfolding handler_authenticated [OF assms(1)] refresh_loaded [OF assms(2)] ev0
    by (simp add: Let_def internal_error_def updates_append updates_requests updates_logs
          updates_combine split: option.splits)
  show "status (fst (handler rv w req)) =
           (case doc_update w uid (aggregate rv (net w) ud) of None \<Rightarrow> 200 | Some e \<Rightarrow> 500)"
    unfolding handler_authenticated [OF assms(1)] refresh_loaded [OF assms(2)]
    by (simp add: Let_def internal_error_def respond_def split: option.splits)
  show "body (fst (handler rv w req)) =
           (case doc_update w uid (aggregate rv (net w) ud) of
              None \<Rightarrow> success_json
            | Some e \<Rightarrow> error_json ''An internal error occurred while refreshing stats.'')"
    unfolding handler_authenticated [OF assms(1)] refresh_loaded [OF assms(2)]
    by (simp add: Let_def internal_error_def respond_def split: option.splits)
qed

lemma handler_loaded_http:
  assumes "authenticate w req = (Inr uid, evs0)" and "doc_get w uid = Inr (Some ud)"
  shows "filter is_http (snd (handler rv w req)) = map request (scrapePromises rv (net w) ud)"
proof -
  have ev0: "evs0 = [VerifyIdToken_call (idToken (the (authorization req)))]"
    using authenticate_uid [OF assms(1)] by auto
  have a: "filter is_http (map request (scrapePromises rv (net w) ud)) = map request (scrapePromises rv (net w) ud)"
    by (simp add: filter_id_conv request_is_http)
  have b: "filter is_http (concat (map (\<lambda>ic. logs (snd ic))
              (completions (latency w) (scrapePromises rv (net w) ud)))) = []"
    by (auto simp: filter_empty_conv dest!: completions_calls dest: logs_are_console)
  have c: "filter is_http (snd (combine rv (map outcome (scrapePromises rv (net w) ud)))) = []"
    by (auto simp: filter_empty_conv combine_def dest: combine_logs_are_console)
  show ?thesis
    unfolding handler_authenticated [OF assms(1)] refresh_loaded [OF assms(2)] ev0
    by (simp add: Let_def internal_error_def a b c split: option.splits)
qed

lemma scrapePromises_none:
  assumes "\<not> truthy (leetcode_username ud)" and "\<not> truthy (codechef_username ud)"
    and "\<not> truthy (hackerrank_username ud)" and "\<not> truthy (gfg_username ud)"
  shows "scrapePromises rv up ud = []"
proof -
  have "\<And>name f. \<not> truthy name \<Longrightarrow> push_if name f = []"
    subgoal for name f by (cases name) (simp_all add: push_if_def)
    done
  then show ?thesis using assms by (simp add: scrapePromises_def)
qed

lemma aggregate_all_failed:
  "\<forall>c \<in> set (scrapePromises rv up ud). \<not> succeeded (outcome c) \<Longrightarrow> aggregate rv up ud = []"
proof -
  assume f: "\<forall>c \<in> set (scrapePromises rv up ud). \<not> succeeded (outcome c)"
  have fold_failed: "\<forall>r \<in> set rs. \<not> succeeded r \<Longrightarrow> fst (fold (merge_result rv) rs (acc, evs)) = acc"
    for rs acc evs
  proof (induction rs arbitrary: evs)
    case Nil
    then show ?case by simp
  next
    case (Cons r rs)
    from Cons.prems have "\<not> succeeded r" by simp
    then obtain evs' where "merge_result rv r (acc, evs) = (acc, evs')"
      by (cases "(rv, r, (acc, evs))" rule: merge_result.cases) auto
    then show ?case using Cons by simp
  qed
  show ?thesis
    unfolding aggregate_def combine_def
    by (rule fold_failed) (use f in auto)
qed

text \<open>
  In such a world, a profile without a user name: no call is started, the empty aggregate
  is written once, and the answer is 200 when that write succeeds.
\<close>

lemma handler_no_platforms:
  assumes "authenticate w req = (Inr uid, evs0)" and "doc_get w uid = Inr (Some ud)"
    and "\<not> truthy (leetcode_username ud)" and "\<not> truthy (codechef_username ud)"
    and "\<not> truthy (hackerrank_username ud)" and "\<not> truthy (gfg_username ud)"
  shows "scrapePromises rv (net w) ud = [] \<and>
         filter is_http (snd (handler rv w req)) = [] \<and>
         aggregate rv (net w) ud = [] \<and>
         updates (snd (handler rv w req)) = [(uid, [])] \<and>
         (doc_update w uid [] = None \<longrightarrow>
            status (fst (handler rv w req)) = 200 \<and> body (fst (handler rv w req)) = success_json)"
proof -
  have none: "scrapePromises rv (net w) ud = []"
    by (rule scrapePromises_none [OF assms(3-6)])
  have agg: "aggregate rv (net w) ud = []"
    by (simp add: aggregate_def none combine_def)
  show ?thesis
    using handler_loaded [OF assms(1,2), of rv] handler_loaded_http [OF assms(1,2), of rv] none agg
    by simp
qed

text \<open>
  In such a world the answer is 200 whenever the write succeeds, whatever the outcomes of
  the calls, and when every call has failed the aggregate that is written is empty.
\<close>

lemma handler_all_adapters_fail:
  assumes "authenticate w req = (Inr uid, evs0)" and "doc_get w uid = Inr (Some ud)"
    and "doc_update w uid (aggregate rv (net w) ud) = None"
  shows "status (fst (handler rv w req)) = 200 \<and>
         body (fst (handler rv w req)) = success_json \<and>
         ((\<forall>c \<in> set (scrapePromises rv (net w) ud). \<not> succeeded (outcome c)) \<longrightarrow>
            aggregate rv (net w) ud = [] \<and> updates (snd (handler rv w req)) = [(uid, [])])"
  using handler_loaded [OF assms(1,2), of rv] assms(3) aggregate_all_failed [of rv "net w" ud]
  by auto

lemma DocUpdate_in_updates: "DocUpdate uid ob \<in> set evs \<longleftrightarrow> (uid, ob) \<in> set (updates evs)"
  by (induction evs rule: updates.induct) auto

lemma handler_updates_cases:
  "updates (snd (handler rv w req)) = [] \<or>
   (\<exists>uid evs0 ud. authenticate w req = (Inr uid, evs0) \<and> doc_get w uid = Inr (Some ud))"
proof (cases "authenticate w req")
  case (Pair r evs)
  show ?thesis
  proof (cases r)
    case (Inl resp)
    then have "updates (snd (handler rv w req)) = []"
      using Pair authenticate_statuses [of w req resp evs]
      by (simp add: handler_def updates_none)
    then show ?thesis ..
  next
    case (Inr uid)
    have ev0: "updates evs = []"
      using authenticate_uid [of w req uid evs] Pair Inr by auto
    show ?thesis
    proof (cases "doc_get w uid")
      case (Inl e)
      then have "updates (snd (handler rv w req)) = []"
        using Pair Inr ev0
        by (simp add: handler_def refresh_def internal_error_def updates_append)
      then show ?thesis ..
    next
      case get: (Inr snap)
      show ?thesis
      proof (cases snap)
        case None
        then have "updates (snd (handler rv w req)) = []"
          using Pair Inr ev0 get
          by (simp add: handler_def refresh_def updates_append)
        then show ?thesis ..
      next
        case (Some ud)
        then show ?thesis using Pair Inr get by auto
      qed
    qed
  qed
qed

lemma handler_loaded_trace:
  assumes "authenticate w req = (Inr uid, evs0)" and "doc_get w uid = Inr (Some ud)"
    and "doc_update w uid (aggregate rv (net w) ud) = Some e"
  shows "\<exists>evs. snd (handler rv w req) =
           evs @ [DocUpdate uid (aggregate rv (net w) ud), ConsoleError ''Error in refresh-stats handler:'']"
  unfolding handler_authenticated [OF assms(1)] refresh_loaded [OF assms(2)]
  using assms(3) by (simp add: Let_def internal_error_def)

text \<open>
  When the trace holds a write and that write throws, the answer is 500, the trace holds
  that one write and after it the log of the error only.
\<close>

lemma handler_persist_failure:
  assumes "DocUpdate uid ob \<in> set (snd (handler rv w req))" and "doc_update w uid ob = Some e"
  shows "status (fst (handler rv w req)) = 500 \<and>
         body (fst (handler rv w req)) = error_json ''An internal error occurred while refreshing stats.'' \<and>
         updates (snd (handler rv w req)) = [(uid, ob)] \<and>
         (\<exists>evs. snd (handler rv w req) =
            evs @ [DocUpdate uid ob, ConsoleError ''Error in refresh-stats handler:''])"
proof -
  have mem: "(uid, ob) \<in> set (updates (snd (handler rv w req)))"
    using assms(1) by (simp add: DocUpdate_in_updates)
  then have "updates (snd (handler rv w req)) \<noteq> []" by auto
  then obtain uid' evs0 ud where a: "authenticate w req = (Inr uid', evs0)"
    and g: "doc_get w uid' = Inr (Some ud)"
    using handler_updates_cases [of rv w req] by auto
  have "updates (snd (handler rv w req)) = [(uid', aggregate rv (net w) ud)]"
    by (rule handler_loaded(1) [OF a g])
  then have eq: "uid' = uid" "aggregate rv (net w) ud = ob" using mem by auto
  have fail: "doc_update w uid' (aggregate rv (net w) ud) = Some e" using assms(2) eq by simp
  show ?thesis
    using handler_loaded [OF a g, of rv] handler_loaded_trace [OF a g fail] fail eq by simp
qed

lemma entries_failed: "\<not> succeeded r \<Longrightarrow> entries r = []"
  by (cases r rule: succeeded.cases) simp_all

lemma set_entries_calls:
  "set (concat (map entries (map outcome cs))) =
     (\<Union>c \<in> {c \<in> set cs. succeeded (outcome c)}. set (entries (outcome c)))"
proof -
  have "(x \<in> set (entries (outcome c))) = (succeeded (outcome c) \<and> x \<in> set (entries (outcome c)))"
    for x c
    using entries_failed [of "outcome c"] by (cases "succeeded (outcome c)") simp_all
  then show ?thesis by auto
qed

text \<open>
  The aggregate of keyed calls on distinct platforms depends, as a mapping, only on the
  set of the calls that succeeded.
\<close>

lemma combine_determined:
  assumes k1: "\<forall>c \<in> set cs1. keyed c" and d1: "distinct (map site cs1)"
    and k2: "\<forall>c \<in> set cs2. keyed c" and d2: "distinct (map site cs2)"
    and same: "{c \<in> set cs1. succeeded (outcome c)} = {c \<in> set cs2. succeeded (outcome c)}"
  shows "map_of (fst (combine rv (map outcome cs1))) = map_of (fst (combine rv (map outcome cs2)))"
proof -
  have "set (concat (map entries (map outcome cs1))) = set (concat (map entries (map outcome cs2)))"
    unfolding set_entries_calls same ..
  then have "map_of (concat (map entries (map outcome cs1))) = map_of (concat (map entries (map outcome cs2)))"
    using distinct_keys_of_keyed_calls [OF k1 d1] distinct_keys_of_keyed_calls [OF k2 d2]
    by (simp add: map_of_inject_set)
  then show ?thesis
    by (simp add: combine_keyed_calls [OF k1 d1] combine_keyed_calls [OF k2 d2])
qed

lemma keys_combine_keyed:
  assumes "\<forall>c \<in> set cs. keyed c" and "distinct (map site cs)"
  shows "keys (fst (combine rv (map outcome cs))) =
           (\<lambda>c. platform_key (site c)) ` {c \<in> set cs. succeeded (outcome c)}"
proof -
  have "keys (fst (combine rv (map outcome cs))) = set (map fst (concat (map entries (map outcome cs))))"
    unfolding combine_keyed_calls [OF assms] keys_def by simp
  also have "\<dots> = set (map (\<lambda>c. platform_key (site c)) (filter (\<lambda>c. succeeded (outcome c)) cs))"
    unfolding keys_of_keyed_calls [OF assms(1)] ..
  also have "\<dots> = (\<lambda>c. platform_key (site c)) ` {c \<in> set cs. succeeded (outcome c)}"
    by simp
  finally show ?thesis .
qed

lemma keys_aggregate:
  "keys (aggregate rv up ud) =
     (\<lambda>c. platform_key (site c)) ` {c \<in> set (scrapePromises rv up ud). succeeded (outcome c)}"
  unfolding aggregate_def
  by (rule keys_combine_keyed) (simp_all add: keyed_scrapePromises distinct_sites_scrapePromises)

lemma failed_key_absent:
  assumes c: "c \<in> set (scrapePromises rv up ud)" and f: "\<not> succeeded (outcome c)"
  shows "platform_key (site c) \<notin> keys (aggregate rv up ud)"
proof
  assume "platform_key (site c) \<in> keys (aggregate rv up ud)"
  then obtain c' where c': "c' \<in> set (scrapePromises rv up ud)" "succeeded (outcome c')"
    and k: "platform_key (site c') = platform_key (site c)"
    unfolding keys_aggregate by auto
  have "site c' = site c" using k inj_platform_key by (simp add: inj_eq)
  moreover have "inj_on site (set (scrapePromises rv up ud))"
    using distinct_sites_scrapePromises [of rv up ud] by (simp add: distinct_map)
  ultimately have "c' = c" using c c'(1) by (auto dest: inj_onD)
  then show False using f c'(2) by simp
qed

lemma unconfigured_key_absent:
  assumes "p \<notin> configured ud"
  shows "platform_key p \<notin> keys (aggregate rv up ud)"
proof
  assume "platform_key p \<in> keys (aggregate rv up ud)"
  then obtain c where c: "c \<in> set (scrapePromises rv up ud)"
    and k: "platform_key (site c) = platform_key p"
    unfolding keys_aggregate by auto
  have "site c = p" using k inj_platform_key by (simp add: inj_eq)
  then have "p \<in> site ` set (scrapePromises rv up ud)" using c by auto
  then show False using assms by (simp add: set_sites_scrapePromises)
qed

lemma authenticate_latency: "authenticate (w\<lparr>latency := lat\<rparr>) req = authenticate w req"
  by (simp add: authenticate_def split: option.splits)

lemma doc_get_latency: "doc_get (w\<lparr>latency := lat\<rparr>) uid = doc_get w uid"
  by (simp add: doc_get_def split: sum.splits)

text \<open>
  C1. The calls that the fan-out starts are those of the configured platforms. Whatever
  the order of completion, the merge of what \<^verbatim>\<open>Promise.allSettled\<close> answers is the
  aggregate. The keys of the aggregate are exactly the keys of the platforms whose call
  succeeded, so that the key of a platform whose call was rejected or returned
  \<^verbatim>\<open>null\<close>, or that is not configured, is absent. And when the request is authenticated
  and the profile is loaded, the handler writes that aggregate, once, the same for every
  order of completion.
\<close>

theorem refresh_aggregate_keys:
  "site ` set (scrapePromises rv up ud) = configured ud \<and>
   (\<forall>lat. fst (combine rv (allSettled lat (scrapePromises rv up ud))) = aggregate rv up ud) \<and>
   keys (aggregate rv up ud) =
     (\<lambda>c. platform_key (site c)) `
       {c \<in> set (scrapePromises rv up ud). succeeded (outcome c)} \<and>
   (\<forall>c \<in> set (scrapePromises rv up ud).
      \<not> succeeded (outcome c) \<longrightarrow> platform_key (site c) \<notin> keys (aggregate rv up ud)) \<and>
   (\<forall>p. p \<notin> configured ud \<longrightarrow> platform_key p \<notin> keys (aggregate rv up ud)) \<and>
   (authenticate w req = (Inr uid, evs0) \<and> doc_get w uid = Inr (Some ud) \<longrightarrow>
      updates (snd (handler rv w req)) = [(uid, aggregate rv (net w) ud)] \<and>
      (\<forall>lat. updates (snd (handler rv (w\<lparr>latency := lat\<rparr>) req)) =
             updates (snd (handler rv w req))))"
proof (intro conjI allI ballI impI)
  show "site ` set (scrapePromises rv up ud) = configured ud"
    by (rule set_sites_scrapePromises)
  show "fst (combine rv (allSettled lat (scrapePromises rv up ud))) = aggregate rv up ud" for lat
    by (simp add: aggregate_def allSettled_input_order)
  show "keys (aggregate rv up ud) =
           (\<lambda>c. platform_key (site c)) `
             {c \<in> set (scrapePromises rv up ud). succeeded (outcome c)}"
    by (rule keys_aggregate)
  show "platform_key (site c) \<notin> keys (aggregate rv up ud)"
    if "c \<in> set (scrapePromises rv up ud)" and "\<not> succeeded (outcome c)" for c
    using that by (rule failed_key_absent)
  show "platform_key p \<notin> keys (aggregate rv up ud)" if "p \<notin> configured ud" for p
    using that by (rule unconfigured_key_absent)
next
  assume h: "authenticate w req = (Inr uid, evs0) \<and> doc_get w uid = Inr (Some ud)"
  then have a: "authenticate w req = (Inr uid, evs0)" and g: "doc_get w uid = Inr (Some ud)"
    by simp_all
  show u: "updates (snd (handler rv w req)) = [(uid, aggregate rv (net w) ud)]"
    by (rule handler_loaded(1) [OF a g])
  show "updates (snd (handler rv (w\<lparr>latency := lat\<rparr>) req)) = updates (snd (handler rv w req))" for lat
  proof -
    have a': "authenticate (w\<lparr>latency := lat\<rparr>) req = (Inr uid, evs0)"
      using a by (simp add: authenticate_latency)
    have g': "doc_get (w\<lparr>latency := lat\<rparr>) uid = Inr (Some ud)"
      using g by (simp add: doc_get_latency)
    show ?thesis
      using handler_loaded(1) [OF a' g', of rv] u by simp
  qed
qed

theorem refresh_aggregate_keys_witness:
  "authenticate demo_world \<lparr>http_method = ''POST'', authorization = Some ''Bearer all''\<rparr> =
     (Inr ''uid-all'', [VerifyIdToken_call (Some ''all'')]) \<and>
   doc_get demo_world ''uid-all'' = Inr (Some all_profile) \<and>
   configured all_profile = {LeetCode, CodeChef, HackerRank, Gfg} \<and>
   map (\<lambda>c. succeeded (outcome c)) (scrapePromises Guarded (net demo_world) all_profile) =
     [True, False, True, True] \<and>
   map fst (aggregate Guarded (net demo_world) all_profile) = [''leetcode'', ''hackerrank'', ''gfg''] \<and>
   updates (snd (handler Guarded demo_world \<lparr>http_method = ''POST'', authorization = Some ''Bearer all''\<rparr>)) =
     [(''uid-all'', aggregate Guarded (net demo_world) all_profile)] \<and>
   ''codechef'' \<notin> keys (aggregate Guarded (net demo_world) all_profile) \<and>
   map (\<lambda>ic. site (snd ic))
     (completions (\<lambda>p. if p = CodeChef then 9 else 1)
        (scrapePromises Guarded (net demo_world) all_profile)) =
     [LeetCode, HackerRank, Gfg, CodeChef] \<and>
   fst (combine Guarded (allSettled (\<lambda>p. if p = CodeChef then 9 else 1)
          (scrapePromises Guarded (net demo_world) all_profile))) =
     aggregate Guarded (net demo_world) all_profile \<and>
   updates (snd (handler Guarded (demo_world\<lparr>latency := (\<lambda>p. if p = CodeChef then 9 else 1)\<rparr>)
                   \<lparr>http_method = ''POST'', authorization = Some ''Bearer all''\<rparr>)) =
     updates (snd (handler Guarded demo_world \<lparr>http_method = ''POST'', authorization = Some ''Bearer all''\<rparr>))"
proof -
  let ?req = "\<lparr>http_method = ''POST'', authorization = Some ''Bearer all''\<rparr>"
  have a: "authenticate demo_world ?req = (Inr ''uid-all'', [VerifyIdToken_call (Some ''all'')])"
    by (simp add: authenticate_def startsWith_def idToken_def split_def split_from.simps
          at_index_def demo_world_def)
  have g: "doc_get demo_world ''uid-all'' = Inr (Some all_profile)"
    by (simp add: doc_get_def demo_world_def demo_profile_def)
  have c: "configured all_profile = {LeetCode, CodeChef, HackerRank, Gfg}"
    by (auto simp: configured_def all_profile_def)
  have s: "map (\<lambda>c. succeeded (outcome c)) (scrapePromises Guarded (net demo_world) all_profile) =
     [True, False, True, True]"
    by code_simp
  have k: "map fst (aggregate Guarded (net demo_world) all_profile) = [''leetcode'', ''hackerrank'', ''gfg'']"
    by code_simp
  note inst = refresh_aggregate_keys [where rv = Guarded and up = "net demo_world"
      and ud = all_profile and w = demo_world and req = ?req and uid = "''uid-all''"
      and ?evs0.0 = "[VerifyIdToken_call (Some ''all'')]"]
  have u: "updates (snd (handler Guarded demo_world ?req)) =
     [(''uid-all'', aggregate Guarded (net demo_world) all_profile)]"
    using inst a g by blast
  have l: "updates (snd (handler Guarded (demo_world\<lparr>latency := (\<lambda>p. if p = CodeChef then 9 else 1)\<rparr>) ?req)) =
     updates (snd (handler Guarded demo_world ?req))"
    using inst a g by blast
  have m: "fst (combine Guarded (allSettled (\<lambda>p. if p = CodeChef then 9 else 1)
          (scrapePromises Guarded (net demo_world) all_profile))) =
     aggregate Guarded (net demo_world) all_profile"
    using inst by blast
  have n: "''codechef'' \<notin> keys (aggregate Guarded (net demo_world) all_profile)"
    using k by (simp add: keys_def del: set_map add: set_map [symmetric])
  have o: "map (\<lambda>ic. site (snd ic))
     (completions (\<lambda>p. if p = CodeChef then 9 else 1)
        (scrapePromises Guarded (net demo_world) all_profile)) =
     [LeetCode, HackerRank, Gfg, CodeChef]"
    by code_simp
  show ?thesis by (intro conjI a g c s k u n o m l)
qed

text \<open>
  C2. Merging the outcomes of the started calls in any order gives the same aggregate (as
  a mapping from keys to records; the order of the keys in the object follows the order
  of the merge), and so does merging any arrangement of started calls with the same set
  of successes. The records of two different platforms have no key in common, the record
  of every call that succeeded is in the aggregate as the adapter returned it, one round
  of the merge never removes a key, a failed outcome leaves the aggregate as it is, and a
  round leaves the value of every key that the merged record does not have.
\<close>

theorem merge_commutative:
  "(\<forall>cs. mset cs = mset (scrapePromises rv up ud) \<longrightarrow>
       map_of (fst (combine rv (map outcome cs))) = map_of (aggregate rv up ud)) \<and>
   (\<forall>cs. set cs \<subseteq> set (scrapePromises rv up ud) \<and> distinct (map site cs) \<and>
         {c \<in> set cs. succeeded (outcome c)} =
           {c \<in> set (scrapePromises rv up ud). succeeded (outcome c)} \<longrightarrow>
       map_of (fst (combine rv (map outcome cs))) = map_of (aggregate rv up ud)) \<and>
   (\<forall>c \<in> set (scrapePromises rv up ud). \<forall>c' \<in> set (scrapePromises rv up ud).
       site c \<noteq> site c' \<longrightarrow> keys (entries (outcome c)) \<inter> keys (entries (outcome c')) = {}) \<and>
   (\<forall>c \<in> set (scrapePromises rv up ud).
       succeeded (outcome c) \<longrightarrow> set (entries (outcome c)) \<subseteq> set (aggregate rv up ud)) \<and>
   (\<forall>r acc evs. keys acc \<subseteq> keys (fst (merge_result rv r (acc, evs)))) \<and>
   (\<forall>r acc evs. \<not> succeeded r \<longrightarrow> fst (merge_result rv r (acc, evs)) = acc) \<and>
   (\<forall>r acc evs k. k \<notin> keys (entries r) \<longrightarrow>
       map_of (fst (merge_result rv r (acc, evs))) k = map_of acc k)"
proof (intro conjI allI ballI impI)
  let ?calls = "scrapePromises rv up ud"
  have K: "\<forall>c \<in> set ?calls. keyed c" by (simp add: keyed_scrapePromises)
  have D: "distinct (map site ?calls)" by (rule distinct_sites_scrapePromises)
  show "map_of (fst (combine rv (map outcome cs))) = map_of (aggregate rv up ud)"
    if "set cs \<subseteq> set ?calls \<and> distinct (map site cs) \<and>
        {c \<in> set cs. succeeded (outcome c)} = {c \<in> set ?calls. succeeded (outcome c)}" for cs
  proof -
    have "\<forall>c \<in> set cs. keyed c" using that K by auto
    then show ?thesis
      unfolding aggregate_def
      using that by (intro combine_determined K D) simp_all
  qed
  show "map_of (fst (combine rv (map outcome cs))) = map_of (aggregate rv up ud)"
    if m: "mset cs = mset ?calls" for cs
  proof -
    have s: "set cs = set ?calls" using m by (rule mset_eq_setD)
    have "mset (map site cs) = mset (map site ?calls)" using m by (metis mset_map)
    then have d: "distinct (map site cs)" using D by (metis mset_eq_imp_distinct_iff)
    have "\<forall>c \<in> set cs. keyed c" using s K by simp
    then show ?thesis
      unfolding aggregate_def
      using s d by (intro combine_determined K D) simp_all
  qed
  show "keys (entries (outcome c)) \<inter> keys (entries (outcome c')) = {}"
    if "c \<in> set ?calls" and "c' \<in> set ?calls" and "site c \<noteq> site c'" for c c'
  proof -
    have "keyed c" and "keyed c'" using that K by auto
    moreover have "platform_key (site c) \<noteq> platform_key (site c')"
      using that(3) inj_platform_key by (simp add: inj_eq)
    ultimately show ?thesis
      unfolding keys_def keyed_def
      by (simp only: set_map [symmetric] split: if_splits) auto
  qed
  show "set (entries (outcome c)) \<subseteq> set (aggregate rv up ud)"
    if "c \<in> set ?calls" and "succeeded (outcome c)" for c
    unfolding aggregate_def combine_keyed_calls [OF K D]
    using that(1) by auto
  show "keys acc \<subseteq> keys (fst (merge_result rv r (acc, evs)))" for r acc evs
    by (cases "(rv, r, (acc, evs))" rule: merge_result.cases) (auto simp: keys_Object_assign)
  show "fst (merge_result rv r (acc, evs)) = acc" if "\<not> succeeded r" for r acc evs
    using that by (cases "(rv, r, (acc, evs))" rule: merge_result.cases) auto
  show "map_of (fst (merge_result rv r (acc, evs))) k = map_of acc k"
    if "k \<notin> keys (entries r)" for r acc evs k
  proof (cases "(rv, r, (acc, evs))" rule: merge_result.cases)
    case (1 rv' v newStats evs')
    then have "k \<notin> fst ` set (rev v)" using that by (simp add: keys_def)
    then have "map_of (rev v) k = None" by (simp add: map_of_eq_None_iff)
    then show ?thesis using 1 by (simp add: map_of_Object_assign map_add_def)
  qed auto
qed

theorem merge_commutative_witness:
  "mset (rev (scrapePromises Guarded demo_upstream all_profile)) =
     mset (scrapePromises Guarded demo_upstream all_profile) \<and>
   map fst (fst (combine Guarded (map outcome (rev (scrapePromises Guarded demo_upstream all_profile))))) =
     [''gfg'', ''hackerrank'', ''leetcode''] \<and>
   map fst (aggregate Guarded demo_upstream all_profile) = [''leetcode'', ''hackerrank'', ''gfg''] \<and>
   map_of (fst (combine Guarded (map outcome (rev (scrapePromises Guarded demo_upstream all_profile))))) =
     map_of (aggregate Guarded demo_upstream all_profile)"
proof -
  have m: "mset (rev (scrapePromises Guarded demo_upstream all_profile)) =
     mset (scrapePromises Guarded demo_upstream all_profile)"
    by simp
  have r: "map fst (fst (combine Guarded (map outcome (rev (scrapePromises Guarded demo_upstream all_profile))))) =
     [''gfg'', ''hackerrank'', ''leetcode'']"
    by code_simp
  have k: "map fst (aggregate Guarded demo_upstream all_profile) = [''leetcode'', ''hackerrank'', ''gfg'']"
    by code_simp
  have e: "map_of (fst (combine Guarded (map outcome (rev (scrapePromises Guarded demo_upstream all_profile))))) =
     map_of (aggregate Guarded demo_upstream all_profile)"
    using merge_commutative [of Guarded demo_upstream all_profile] m by blast
  show ?thesis using m r k e by simp
qed

section \<open>The refresh handler on the snapshots of firebase-admin\<close>

text \<open>
  In a world where \<^verbatim>\<open>exists\<close> is not a function, \<^verbatim>\<open>docSnap.exists()\<close> throws for every
  snapshot that was read: every request that passes step 1 ends in the \<^verbatim>\<open>catch\<close> of
  the handler, with 500, after the read and before any adapter call or write.
\<close>

lemma doc_get_not_callable: "\<not> exists_is_function w \<Longrightarrow> \<exists>e. doc_get w uid = Inl e"
  by (cases "doc_fetch w uid") (simp_all add: doc_get_def)

lemma exists_not_callable:
  assumes "\<not> exists_is_function w" and "authenticate w req = (Inr uid, evs0)"
  shows "status (fst (handler rv w req)) = 500"
    and "body (fst (handler rv w req)) =
           error_json ''An internal error occurred while refreshing stats.''"
    and "snd (handler rv w req) =
           evs0 @ [DocGet uid, ConsoleError ''Error in refresh-stats handler:'']"
proof -
  obtain e where e: "doc_get w uid = Inl e"
    using doc_get_not_callable [OF assms(1)] by auto
  have r: "refresh rv w uid = internal_error [DocGet uid]"
    using e by (simp add: refresh_def)
  show "status (fst (handler rv w req)) = 500"
    and "body (fst (handler rv w req)) =
           error_json ''An internal error occurred while refreshing stats.''"
    and "snd (handler rv w req) =
           evs0 @ [DocGet uid, ConsoleError ''Error in refresh-stats handler:'']"
    unfolding handler_authenticated [OF assms(2)] r
    by (simp_all add: internal_error_def respond_def)
qed

lemma exists_not_callable_no_write:
  assumes "\<not> exists_is_function w"
  shows "updates (snd (handler rv w req)) = []"
    and "filter is_http (snd (handler rv w req)) = []"
proof -
  have "updates (snd (handler rv w req)) = [] \<and> filter is_http (snd (handler rv w req)) = []"
  proof (cases "authenticate w req")
    case (Pair r evs)
    show ?thesis
    proof (cases r)
      case (Inl resp)
      then show ?thesis
        using Pair authenticate_statuses [of w req resp evs]
        by (simp add: handler_def updates_none filter_empty_conv)
    next
      case (Inr uid)
      have a: "authenticate w req = (Inr uid, evs)" using Pair Inr by simp
      have "evs = [VerifyIdToken_call (idToken (the (authorization req)))]"
        using authenticate_uid [OF a] by auto
      then show ?thesis
        using exists_not_callable(3) [OF assms a, of rv] by simp
    qed
  qed
  then show "updates (snd (handler rv w req)) = []"
    and "filter is_http (snd (handler rv w req)) = []"
    by simp_all
qed

text \<open>
  C4. With the snapshots of firebase-admin, a POST request with a valid credential whose
  identity has no stored profile is answered 500, in both revisions: the call of
  \<^verbatim>\<open>exists()\<close> throws before the 404 of the handler is reached. (Lemma
  \<open>handler_no_profile\<close> is the 404 that the handler is written to give.)
\<close>

theorem handler_no_profile_admin:
  "\<not> exists_is_function admin_world \<and>
   verifyIdToken admin_world (idToken ''Bearer new'') = Inr ''uid-new'' \<and>
   doc_fetch admin_world ''uid-new'' = Inr None \<and>
   status (fst (handler Guarded admin_world
     \<lparr>http_method = ''POST'', authorization = Some ''Bearer new''\<rparr>)) = 500 \<and>
   snd (handler Guarded admin_world
     \<lparr>http_method = ''POST'', authorization = Some ''Bearer new''\<rparr>) =
     [VerifyIdToken_call (Some ''new''), DocGet ''uid-new'',
      ConsoleError ''Error in refresh-stats handler:''] \<and>
   status (fst (handler Plain admin_world
     \<lparr>http_method = ''POST'', authorization = Some ''Bearer new''\<rparr>)) = 500"
  by code_simp

text \<open>
  C5. With the snapshots of firebase-admin, an authenticated request whose stored profile
  has no user name is answered 500, in both revisions, and nothing is written: the persist
  step does not run. (Lemma \<open>handler_no_platforms\<close> is what the handler is written to do.)
\<close>

theorem handler_no_platforms_admin:
  "\<not> exists_is_function admin_world \<and>
   verifyIdToken admin_world (idToken ''Bearer bare'') = Inr ''uid-bare'' \<and>
   doc_fetch admin_world ''uid-bare'' =
     Inr (Some \<lparr>leetcode_username = None, codechef_username = Some [],
                 hackerrank_username = None, gfg_username = None\<rparr>) \<and>
   doc_update admin_world ''uid-bare'' [] = None \<and>
   status (fst (handler Guarded admin_world
     \<lparr>http_method = ''POST'', authorization = Some ''Bearer bare''\<rparr>)) = 500 \<and>
   updates (snd (handler Guarded admin_world
     \<lparr>http_method = ''POST'', authorization = Some ''Bearer bare''\<rparr>)) = [] \<and>
   status (fst (handler Plain admin_world
     \<lparr>http_method = ''POST'', authorization = Some ''Bearer bare''\<rparr>)) = 500 \<and>
   updates (snd (handler Plain admin_world
     \<lparr>http_method = ''POST'', authorization = Some ''Bearer bare''\<rparr>)) = []"
  by code_simp

text \<open>
  C6. With the snapshots of firebase-admin, an authenticated request whose profile names
  two platforms that both fail is answered 500 although the write would succeed, in both
  revisions; no adapter is called and nothing is written. (Lemma
  \<open>handler_all_adapters_fail\<close> is the 200 that the handler is written to give.)
\<close>

theorem handler_all_adapters_fail_admin:
  "\<not> exists_is_function admin_world \<and>
   verifyIdToken admin_world (idToken ''Bearer unlucky'') = Inr ''uid-unlucky'' \<and>
   doc_fetch admin_world ''uid-unlucky'' =
     Inr (Some \<lparr>leetcode_username = Some ''ghost'', codechef_username = Some ''bob'',
                 hackerrank_username = None, gfg_username = None\<rparr>) \<and>
   map (\<lambda>c. succeeded (outcome c))
     (scrapePromises Guarded (net admin_world)
        \<lparr>leetcode_username = Some ''ghost'', codechef_username = Some ''bob'',
          hackerrank_username = None, gfg_username = None\<rparr>) = [False, False] \<and>
   doc_update admin_world ''uid-unlucky'' [] = None \<and>
   status (fst (handler Guarded admin_world
     \<lparr>http_method = ''POST'', authorization = Some ''Bearer unlucky''\<rparr>)) = 500 \<and>
   snd (handler Guarded admin_world
     \<lparr>http_method = ''POST'', authorization = Some ''Bearer unlucky''\<rparr>) =
     [VerifyIdToken_call (Some ''unlucky''), DocGet ''uid-unlucky'',
      ConsoleError ''Error in refresh-stats handler:''] \<and>
   status (fst (handler Plain admin_world
     \<lparr>http_method = ''POST'', authorization = Some ''Bearer unlucky''\<rparr>)) = 500"
  by code_simp


section \<open>Properties of the single-lookup endpoint\<close>

lemma or_zero_JNum: "or_zero (JNum n) = JNum n"
  by simp

lemma bucket_absent: "label \<notin> difficulty ` set stats \<Longrightarrow> bucket label stats = JNum 0"
proof -
  assume "label \<notin> difficulty ` set stats"
  then have "find (\<lambda>s. difficulty s = label) stats = None"
    by (auto simp: find_None_iff)
  then show ?thesis by (simp add: bucket_def)
qed

lemma find_distinct_label:
  "distinct (map difficulty stats) \<Longrightarrow> s \<in> set stats \<Longrightarrow>
   find (\<lambda>x. difficulty x = difficulty s) stats = Some s"
  by (induction stats) auto

lemma bucket_present:
  "distinct (map difficulty stats) \<Longrightarrow> s \<in> set stats \<Longrightarrow> bucket (difficulty s) stats = JNum (count s)"
  by (simp add: bucket_def find_distinct_label)

lemma bucket_permute:
  assumes "mset stats' = mset stats" and "distinct (map difficulty stats)"
  shows "bucket label stats' = bucket label stats"
proof -
  have s: "set stats' = set stats" using assms(1) by (rule mset_eq_setD)
  have "mset (map difficulty stats') = mset (map difficulty stats)" using assms(1) by (metis mset_map)
  then have d: "distinct (map difficulty stats')" using assms(2) by (metis mset_eq_imp_distinct_iff)
  show ?thesis
  proof (cases "label \<in> difficulty ` set stats")
    case True
    then obtain x where x: "x \<in> set stats" "difficulty x = label" by auto
    show ?thesis
      using bucket_present [OF assms(2) x(1)] bucket_present [OF d, of x] x s by simp
  next
    case False
    then show ?thesis using s by (simp add: bucket_absent)
  qed
qed

lemma gs_dispatch_supported: "gs_dispatch up p u = None \<longleftrightarrow> p \<notin> set supported"
  by (simp add: gs_dispatch_def supported_def)

text \<open>
  As C8 is stated it fails at three requests. The platform is compared after
  \<^verbatim>\<open>toLowerCase()\<close>, so \<^verbatim>\<open>LeetCode\<close>, which is not in the supported set, is served: the
  adapter is called and the answer is 200. A platform that is given twice arrives as an
  array, which is not in the supported set either: \<^verbatim>\<open>toLowerCase\<close> is not a function of
  an array, and the answer is 500, not 400. A user name that is given and empty, with a
  supported platform, is answered 400 and no adapter is called.
\<close>

theorem gs_handler_case_counterexample:
  "''LeetCode'' \<notin> set supported \<and>
   status (fst (gs_handler demo_upstream
     \<lparr>platform_param = Some (Str ''LeetCode''), username_param = Some (Str ''alice'')\<rparr>)) = 200 \<and>
   snd (gs_handler demo_upstream
     \<lparr>platform_param = Some (Str ''LeetCode''), username_param = Some (Str ''alice'')\<rparr>) =
     [HttpPost ''https://leetcode.com/graphql'' (Str ''alice'')] \<and>
   status (fst (gs_handler demo_upstream
     \<lparr>platform_param = Some (Arr [''leetcode'', ''codechef'']),
      username_param = Some (Str ''alice'')\<rparr>)) = 500 \<and>
   filter is_http (snd (gs_handler demo_upstream
     \<lparr>platform_param = Some (Arr [''leetcode'', ''codechef'']),
      username_param = Some (Str ''alice'')\<rparr>)) = [] \<and>
   username_param \<lparr>platform_param = Some (Str ''leetcode''), username_param = Some (Str [])\<rparr> \<noteq> None \<and>
   ''leetcode'' \<in> set supported \<and>
   status (fst (gs_handler demo_upstream
     \<lparr>platform_param = Some (Str ''leetcode''), username_param = Some (Str [])\<rparr>)) = 400 \<and>
   snd (gs_handler demo_upstream
     \<lparr>platform_param = Some (Str ''leetcode''), username_param = Some (Str [])\<rparr>) = []"
  by code_simp

text \<open>
  C8, amended to requests whose platform parameter is not repeated, with the platform
  looked up in lower case and an empty parameter counted as missing. When a parameter is
  absent or empty (whatever the other one is), or the platform is a string that in lower
  case is not supported, the answer is 400 and no request has been sent. When the
  platform is a string that in lower case is supported and the user name is there, the
  adapter of that platform is called: when it throws, the answer is 500 with the
  diagnostic message, and when it returns, the answer is 200 with the record of the
  adapter.
\<close>

theorem gs_handler_contract:
  "(\<not> present (platform_param q) \<or> \<not> present (username_param q) \<longrightarrow>
      status (fst (gs_handler up q)) = 400 \<and> snd (gs_handler up q) = []) \<and>
   (\<forall>p u. platform_param q = Some (Str p) \<and> p \<noteq> [] \<and>
          username_param q = Some u \<and> present (Some u) \<longrightarrow>
      (toLowerCase p \<notin> set supported \<longrightarrow>
         status (fst (gs_handler up q)) = 400 \<and> snd (gs_handler up q) = []) \<and>
      (toLowerCase p \<in> set supported \<longrightarrow>
         (\<exists>evs res. gs_dispatch up (toLowerCase p) u = Some (evs, res) \<and>
            filter is_http (snd (gs_handler up q)) \<noteq> [] \<and>
            (case res of
               Inl e \<Rightarrow>
                 status (fst (gs_handler up q)) = 500 \<and>
                 body (fst (gs_handler up q)) = error_json (gs_failure_message p)
             | Inr data \<Rightarrow>
                 status (fst (gs_handler up q)) = 200 \<and>
                 body (fst (gs_handler up q)) = JObj data \<and> snd (gs_handler up q) = evs))))"
proof (intro conjI allI impI)
  assume "\<not> present (platform_param q) \<or> \<not> present (username_param q)"
  then show "status (fst (gs_handler up q)) = 400" and "snd (gs_handler up q) = []"
    by (auto simp: gs_handler_def respond_def)
next
  fix p u
  assume q: "platform_param q = Some (Str p) \<and> p \<noteq> [] \<and>
             username_param q = Some u \<and> present (Some u)"
  {
    assume "toLowerCase p \<notin> set supported"
    then have "gs_dispatch up (toLowerCase p) u = None"
      by (simp add: gs_dispatch_supported)
    then show "status (fst (gs_handler up q)) = 400" and "snd (gs_handler up q) = []"
      using q by (simp_all add: gs_handler_def respond_def)
  }
  {
    assume "toLowerCase p \<in> set supported"
    then obtain evs res where d: "gs_dispatch up (toLowerCase p) u = Some (evs, res)"
      using gs_dispatch_supported [of up "toLowerCase p" u]
      by (cases "gs_dispatch up (toLowerCase p) u") auto
    have "\<exists>ev rest. evs = ev # rest \<and> is_http ev"
      using d
      by (auto simp: gs_dispatch_def gs_getLeetCodeStats_def gs_getCodeChefStats_def
            gs_getHackerRankStats_def gs_getGfgStats_def Let_def
            split: if_splits sum.splits profile_script.splits option.splits)
    then have h: "filter is_http evs \<noteq> []" by auto
    show "\<exists>evs res. gs_dispatch up (toLowerCase p) u = Some (evs, res) \<and>
            filter is_http (snd (gs_handler up q)) \<noteq> [] \<and>
            (case res of
               Inl e \<Rightarrow>
                 status (fst (gs_handler up q)) = 500 \<and>
                 body (fst (gs_handler up q)) = error_json (gs_failure_message p)
             | Inr data \<Rightarrow>
                 status (fst (gs_handler up q)) = 200 \<and>
                 body (fst (gs_handler up q)) = JObj data \<and> snd (gs_handler up q) = evs)"
      using d q h by (cases res) (simp_all add: gs_handler_def respond_def)
  }
qed

theorem gs_handler_contract_witness:
  "status (fst (gs_handler demo_upstream \<lparr>platform_param = Some (Str ''gfg''), username_param = None\<rparr>)) = 400 \<and>
   snd (gs_handler demo_upstream \<lparr>platform_param = Some (Str ''gfg''), username_param = None\<rparr>) = [] \<and>
   status (fst (gs_handler demo_upstream
     \<lparr>platform_param = Some (Arr [''gfg'', ''gfg'']), username_param = Some (Str [])\<rparr>)) = 400 \<and>
   toLowerCase ''foo'' \<notin> set supported \<and>
   status (fst (gs_handler demo_upstream
     \<lparr>platform_param = Some (Str ''foo''), username_param = Some (Str ''alice'')\<rparr>)) = 400 \<and>
   snd (gs_handler demo_upstream
     \<lparr>platform_param = Some (Str ''foo''), username_param = Some (Str ''alice'')\<rparr>) = [] \<and>
   toLowerCase ''CodeChef'' \<in> set supported \<and>
   status (fst (gs_handler demo_upstream
     \<lparr>platform_param = Some (Str ''CodeChef''), username_param = Some (Arr [''bob'', ''eve''])\<rparr>)) = 500 \<and>
   toLowerCase ''HackerRank'' \<in> set supported \<and>
   status (fst (gs_handler demo_upstream
     \<lparr>platform_param = Some (Str ''HackerRank''), username_param = Some (Str ''carol'')\<rparr>)) = 200 \<and>
   body (fst (gs_handler demo_upstream
     \<lparr>platform_param = Some (Str ''HackerRank''), username_param = Some (Str ''carol'')\<rparr>)) =
     JObj [(''hackerrank'', JObj [(''badges'', JNum 3)])]"
proof -
  let ?q1 = "\<lparr>platform_param = Some (Str ''gfg''), username_param = None\<rparr>"
  let ?q2 = "\<lparr>platform_param = Some (Arr [''gfg'', ''gfg'']), username_param = Some (Str [])\<rparr>"
  let ?q3 = "\<lparr>platform_param = Some (Str ''foo''), username_param = Some (Str ''alice'')\<rparr>"
  let ?q4 = "\<lparr>platform_param = Some (Str ''CodeChef''), username_param = Some (Arr [''bob'', ''eve''])\<rparr>"
  let ?q5 = "\<lparr>platform_param = Some (Str ''HackerRank''), username_param = Some (Str ''carol'')\<rparr>"
  have m: "status (fst (gs_handler demo_upstream ?q1)) = 400 \<and> snd (gs_handler demo_upstream ?q1) = []"
    using gs_handler_contract [of ?q1 demo_upstream] by simp
  have a: "status (fst (gs_handler demo_upstream ?q2)) = 400 \<and> snd (gs_handler demo_upstream ?q2) = []"
    using gs_handler_contract [of ?q2 demo_upstream] by simp
  have f: "toLowerCase ''foo'' \<notin> set supported" by code_simp
  have u: "status (fst (gs_handler demo_upstream ?q3)) = 400 \<and> snd (gs_handler demo_upstream ?q3) = []"
    using gs_handler_contract [of ?q3 demo_upstream] f by simp
  have c: "toLowerCase ''CodeChef'' \<in> set supported" by code_simp
  have dc: "gs_dispatch demo_upstream (toLowerCase ''CodeChef'') (Arr [''bob'', ''eve'']) =
      Some ([HttpGet ''https://www.codechef.com/users/bob,eve''],
            Inl (AxiosError ''timeout of 1000ms exceeded''))"
    by code_simp
  have e: "status (fst (gs_handler demo_upstream ?q4)) = 500"
    using gs_handler_contract [of ?q4 demo_upstream] c dc by simp
  have h: "toLowerCase ''HackerRank'' \<in> set supported" by code_simp
  have dh: "gs_dispatch demo_upstream (toLowerCase ''HackerRank'') (Str ''carol'') =
      Some ([HttpGet ''https://www.hackerrank.com/profile/carol''],
            Inr [(''hackerrank'', JObj [(''badges'', JNum 3)])])"
    by code_simp
  have s: "status (fst (gs_handler demo_upstream ?q5)) = 200 \<and>
    body (fst (gs_handler demo_upstream ?q5)) = JObj [(''hackerrank'', JObj [(''badges'', JNum 3)])]"
    using gs_handler_contract [of ?q5 demo_upstream] h dh by simp
  show ?thesis
    by (intro conjI m [THEN conjunct1] m [THEN conjunct2] a [THEN conjunct1] f
          u [THEN conjunct1] u [THEN conjunct2] c e h s [THEN conjunct1] s [THEN conjunct2])
qed

text \<open>
  C9. In the single-lookup endpoint, a LeetCode answer with \<^verbatim>\<open>errors\<close> makes the adapter
  throw and the handler answer 500 with the error message, not a record. An answer
  without errors and with a submission list gives the four buckets, each found by its
  difficulty label: 0 when no entry has the label, the count of the entry that has it when
  the labels are distinct, and then the same whatever the order of the list.
\<close>

theorem gs_leetcode_contract:
  "(platform_param q = Some (Str p) \<and> toLowerCase p = ''leetcode'' \<and>
    username_param q = Some u \<and> present (Some u) \<and>
    axios_post_leetcode up u = Inr d \<and> errors d \<noteq> None \<longrightarrow>
      status (fst (gs_handler up q)) = 500 \<and>
      body (fst (gs_handler up q)) = error_json (gs_failure_message p) \<and>
      (\<exists>e. snd (gs_getLeetCodeStats up u) = Inl e)) \<and>
   (axios_post_leetcode up u' = Inr d' \<and> errors d' = None \<and>
    acSubmissionNum d' = Some stats \<longrightarrow>
      snd (gs_getLeetCodeStats up u') =
        Inr [(''leetcode'', JObj
               [(''problems_solved'', bucket ''All'' stats),
                (''Easy'', bucket ''Easy'' stats),
                (''Medium'', bucket ''Medium'' stats),
                (''Hard'', bucket ''Hard'' stats)])]) \<and>
   (label \<notin> difficulty ` set stats \<longrightarrow> bucket label stats = JNum 0) \<and>
   (s \<in> set stats \<and> distinct (map difficulty stats) \<longrightarrow>
      bucket (difficulty s) stats = JNum (count s)) \<and>
   (mset stats' = mset stats \<and> distinct (map difficulty stats) \<longrightarrow>
      bucket label stats' = bucket label stats)"
proof (intro conjI impI)
  assume h: "platform_param q = Some (Str p) \<and> toLowerCase p = ''leetcode'' \<and>
            username_param q = Some u \<and> present (Some u) \<and>
            axios_post_leetcode up u = Inr d \<and> errors d \<noteq> None"
  then have p: "p \<noteq> []" by (auto simp: toLowerCase_def)
  obtain ms where ms: "errors d = Some ms" using h by auto
  have thrown: "\<exists>e. snd (gs_getLeetCodeStats up u) = Inl e"
    using h ms by (cases ms) (simp_all add: gs_getLeetCodeStats_def)
  then show "\<exists>e. snd (gs_getLeetCodeStats up u) = Inl e" .
  from thrown obtain e where e: "gs_getLeetCodeStats up u = ([HttpPost leetcode_url u], Inl e)"
    by (cases "gs_getLeetCodeStats up u") (auto simp: gs_getLeetCodeStats_def)
  show "status (fst (gs_handler up q)) = 500"
    and "body (fst (gs_handler up q)) = error_json (gs_failure_message p)"
    using h p e by (simp_all add: gs_handler_def gs_dispatch_def respond_def)
next
  assume "axios_post_leetcode up u' = Inr d' \<and> errors d' = None \<and> acSubmissionNum d' = Some stats"
  then show "snd (gs_getLeetCodeStats up u') =
        Inr [(''leetcode'', JObj
               [(''problems_solved'', bucket ''All'' stats),
                (''Easy'', bucket ''Easy'' stats),
                (''Medium'', bucket ''Medium'' stats),
                (''Hard'', bucket ''Hard'' stats)])]"
    by (simp add: gs_getLeetCodeStats_def leetcode_record_def)
next
  assume "label \<notin> difficulty ` set stats"
  then show "bucket label stats = JNum 0" by (rule bucket_absent)
next
  assume h: "s \<in> set stats \<and> distinct (map difficulty stats)"
  show "bucket (difficulty s) stats = JNum (count s)"
    by (rule bucket_present [OF conjunct2 [OF h] conjunct1 [OF h]])
next
  assume h: "mset stats' = mset stats \<and> distinct (map difficulty stats)"
  show "bucket label stats' = bucket label stats"
    by (rule bucket_permute [OF conjunct1 [OF h] conjunct2 [OF h]])
qed

theorem gs_leetcode_contract_witness:
  "toLowerCase ''LeetCode'' = ''leetcode'' \<and>
   axios_post_leetcode demo_upstream (Str ''ghost'') =
     Inr \<lparr>errors = Some [''That user does not exist.''], acSubmissionNum = None\<rparr> \<and>
   status (fst (gs_handler demo_upstream
     \<lparr>platform_param = Some (Str ''LeetCode''), username_param = Some (Str ''ghost'')\<rparr>)) = 500 \<and>
   axios_post_leetcode demo_upstream (Str ''alice'') =
     Inr \<lparr>errors = None, acSubmissionNum = Some alice_stats\<rparr> \<and>
   snd (gs_getLeetCodeStats demo_upstream (Str ''alice'')) =
     Inr [(''leetcode'', JObj [(''problems_solved'', JNum 120), (''Easy'', JNum 80),
                               (''Medium'', JNum 35), (''Hard'', JNum 5)])] \<and>
   bucket ''Insane'' alice_stats = JNum 0 \<and>
   mset (rev alice_stats) = mset alice_stats \<and>
   distinct (map difficulty alice_stats) \<and>
   bucket ''Easy'' (rev alice_stats) = bucket ''Easy'' alice_stats"
proof -
  let ?q = "\<lparr>platform_param = Some (Str ''LeetCode''), username_param = Some (Str ''ghost'')\<rparr>"
  let ?ghost = "\<lparr>errors = Some [''That user does not exist.''], acSubmissionNum = None\<rparr>"
  let ?alice = "\<lparr>errors = None, acSubmissionNum = Some alice_stats\<rparr>"
  note inst = gs_leetcode_contract [where q = ?q and up = demo_upstream and p = "''LeetCode''"
      and u = "Str ''ghost''" and d = ?ghost and u' = "Str ''alice''" and d' = ?alice
      and stats = alice_stats and label = "''Insane''" and stats' = "rev alice_stats"]
  note easy = gs_leetcode_contract [where up = demo_upstream and stats = alice_stats
      and label = "''Easy''" and stats' = "rev alice_stats"]
  note c1 = inst [THEN conjunct1]
  note c2 = inst [THEN conjunct2, THEN conjunct1]
  note c3 = inst [THEN conjunct2, THEN conjunct2, THEN conjunct1]
  note c5 = easy [THEN conjunct2, THEN conjunct2, THEN conjunct2, THEN conjunct2]
  have l: "toLowerCase ''LeetCode'' = ''leetcode''" by code_simp
  have g: "axios_post_leetcode demo_upstream (Str ''ghost'') = Inr ?ghost"
    by (simp add: demo_upstream_def)
  have a: "axios_post_leetcode demo_upstream (Str ''alice'') = Inr ?alice"
    by (simp add: demo_upstream_def)
  have e: "status (fst (gs_handler demo_upstream ?q)) = 500"
    using c1 l g by simp
  have r: "snd (gs_getLeetCodeStats demo_upstream (Str ''alice'')) =
        Inr [(''leetcode'', JObj
               [(''problems_solved'', bucket ''All'' alice_stats),
                (''Easy'', bucket ''Easy'' alice_stats),
                (''Medium'', bucket ''Medium'' alice_stats),
                (''Hard'', bucket ''Hard'' alice_stats)])]"
    using c2 a by simp
  have b: "bucket ''All'' alice_stats = JNum 120" "bucket ''Easy'' alice_stats = JNum 80"
    "bucket ''Medium'' alice_stats = JNum 35" "bucket ''Hard'' alice_stats = JNum 5"
    by (simp_all add: bucket_def alice_stats_def)
  have n: "''Insane'' \<notin> difficulty ` set alice_stats" by (simp add: alice_stats_def)
  have z: "bucket ''Insane'' alice_stats = JNum 0"
    by (rule c3 [THEN mp, OF n])
  have d: "distinct (map difficulty alice_stats)" by (simp add: alice_stats_def)
  have m: "mset (rev alice_stats) = mset alice_stats" by simp
  have pm: "bucket ''Easy'' (rev alice_stats) = bucket ''Easy'' alice_stats"
    by (rule c5 [THEN mp, OF conjI [OF m d]])
  show ?thesis by (intro conjI l g e a r [unfolded b] z m d pm)
qed

end
